theory Spec2Isabelle
  imports Main "HOL-Library.Word"
begin

section \<open>Strings\<close>

text \<open>
  Content types, file names, format labels and messages are ASCII and are modelled as
  \<open>string\<close>. Document text (what \<open>fs.readFileSync(_, "utf-8")\<close> and mammoth return) is a
  JavaScript string, a sequence of UTF-16 code units: \<open>length\<close>, \<open>substring\<close>,
  \<open>lastIndexOf\<close>, \<open>trim\<close> and the regular expressions of the source (no \<open>u\<close> flag)
  all work on code units.
\<close>

type_synonym jsstring = "16 word list"

text \<open>\<open>s.split(sep)\<close> for a one-character separator: never the empty array.\<close>

fun split_on :: "'a \<Rightarrow> 'a list \<Rightarrow> 'a list list" where
  "split_on d [] = [[]]"
| "split_on d (x # xs) =
     (if x = d then [] # split_on d xs
      else (case split_on d xs of [] \<Rightarrow> [[x]] | y # ys \<Rightarrow> (x # y) # ys))"

text \<open>\<open>parts.join(sep)\<close>.\<close>

fun join :: "'a list \<Rightarrow> 'a list list \<Rightarrow> 'a list" where
  "join sep [] = []"
| "join sep [x] = x"
| "join sep (x # y # ys) = x @ sep @ join sep (y # ys)"

text \<open>\<open>toUpperCase\<close> and \<open>toLowerCase\<close> on ASCII text.\<close>

definition upper_char :: "char \<Rightarrow> char" where
  "upper_char c =
     (let n = (of_char c :: nat) in if 97 \<le> n \<and> n \<le> 122 then char_of (n - 32) else c)"

definition lower_char :: "char \<Rightarrow> char" where
  "lower_char c =
     (let n = (of_char c :: nat) in if 65 \<le> n \<and> n \<le> 90 then char_of (n + 32) else c)"

definition toUpperCase :: "string \<Rightarrow> string" where
  "toUpperCase s = map upper_char s"

definition toLowerCase :: "string \<Rightarrow> string" where
  "toLowerCase s = map lower_char s"

definition startsWith :: "'a list \<Rightarrow> 'a list \<Rightarrow> bool" where
  "startsWith s p = (take (length p) s = p)"

definition endsWith :: "'a list \<Rightarrow> 'a list \<Rightarrow> bool" where
  "endsWith s p = (length p \<le> length s \<and> drop (length s - length p) s = p)"

text \<open>\<open>String(n)\<close> for a non-negative integer: its decimal digits.\<close>

definition digit_char :: "nat \<Rightarrow> char" where
  "digit_char d = char_of (48 + d)"

fun dec :: "nat \<Rightarrow> string" where
  "dec n = (if n < 10 then [digit_char n] else dec (n div 10) @ [digit_char (n mod 10)])"

declare dec.simps [simp del]

text \<open>
  \<open>s.lastIndexOf(c, pos)\<close> for a one-character \<open>c\<close>: the greatest index \<open>i \<le> pos\<close> with
  \<open>s[i] = c\<close>; \<open>None\<close> is the source's \<open>-1\<close>.
\<close>

fun lastIndexIn :: "'a \<Rightarrow> 'a list \<Rightarrow> nat option" where
  "lastIndexIn c [] = None"
| "lastIndexIn c (x # xs) =
     (case lastIndexIn c xs of
        Some i \<Rightarrow> Some (Suc i)
      | None \<Rightarrow> if x = c then Some 0 else None)"

definition lastIndexOf :: "'a \<Rightarrow> nat \<Rightarrow> 'a list \<Rightarrow> nat option" where
  "lastIndexOf c pos s = lastIndexIn c (take (Suc pos) s)"

text \<open>
  \<open>s.trim()\<close>: strips the ECMAScript white space and line terminator code units from both
  ends.
\<close>

definition isWhiteSpace :: "16 word \<Rightarrow> bool" where
  "isWhiteSpace c =
     (c = 0x0009 \<or> c = 0x000A \<or> c = 0x000B \<or> c = 0x000C \<or> c = 0x000D \<or> c = 0x0020 \<or>
      c = 0x00A0 \<or> c = 0x1680 \<or> (0x2000 \<le> c \<and> c \<le> 0x200A) \<or> c = 0x2028 \<or>
      c = 0x2029 \<or> c = 0x202F \<or> c = 0x205F \<or> c = 0x3000 \<or> c = 0xFEFF)"

definition trimStart :: "jsstring \<Rightarrow> jsstring" where
  "trimStart s = dropWhile isWhiteSpace s"

definition trimEnd :: "jsstring \<Rightarrow> jsstring" where
  "trimEnd s = rev (dropWhile isWhiteSpace (rev s))"

definition trim :: "jsstring \<Rightarrow> jsstring" where
  "trim s = trimEnd (trimStart s)"

abbreviation TAB :: "16 word" where "TAB \<equiv> 0x0009"
abbreviation LF :: "16 word" where "LF \<equiv> 0x000A"
abbreviation CR :: "16 word" where "CR \<equiv> 0x000D"
abbreviation SPACE :: "16 word" where "SPACE \<equiv> 0x0020"

section \<open>Formats and the classification of content types\<close>

datatype SupportedFormat = PNG | JPG | WEBP | TIFF | PDF | TXT | WORD

definition SUPPORTED_FORMATS :: "SupportedFormat list" where
  "SUPPORTED_FORMATS = [PNG, JPG, WEBP, TIFF, PDF, TXT, WORD]"

definition IMAGE_FORMATS :: "SupportedFormat list" where
  "IMAGE_FORMATS = [PNG, JPG, WEBP, TIFF]"

text \<open>The string each member of the enumeration is in the source.\<close>

fun formatName :: "SupportedFormat \<Rightarrow> string" where
  "formatName PNG = ''PNG''"
| "formatName JPG = ''JPG''"
| "formatName WEBP = ''WEBP''"
| "formatName TIFF = ''TIFF''"
| "formatName PDF = ''PDF''"
| "formatName TXT = ''TXT''"
| "formatName WORD = ''WORD''"

text \<open>
  \<open>conversionRequestSchema.safeParse({ targetFormat })\<close>: succeeds exactly on the seven
  strings of \<open>SUPPORTED_FORMATS\<close>; a missing field fails.
\<close>

definition safeParse :: "string option \<Rightarrow> SupportedFormat option" where
  "safeParse raw =
     (case raw of
        None \<Rightarrow> None
      | Some r \<Rightarrow> find (\<lambda>f. formatName f = r) SUPPORTED_FORMATS)"

fun getExtensionFromFormat :: "SupportedFormat \<Rightarrow> string" where
  "getExtensionFromFormat PNG = ''png''"
| "getExtensionFromFormat JPG = ''jpg''"
| "getExtensionFromFormat WEBP = ''webp''"
| "getExtensionFromFormat TIFF = ''tiff''"
| "getExtensionFromFormat PDF = ''pdf''"
| "getExtensionFromFormat TXT = ''txt''"
| "getExtensionFromFormat WORD = ''docx''"

definition mimeMap :: "(string \<times> string) list" where
  "mimeMap =
     [(''image/png'', ''PNG''),
      (''image/jpeg'', ''JPG''),
      (''image/webp'', ''WEBP''),
      (''image/tiff'', ''TIFF''),
      (''application/pdf'', ''PDF''),
      (''text/plain'', ''TXT''),
      (''application/msword'', ''WORD''),
      (''application/vnd.openxmlformats-officedocument.wordprocessingml.document'', ''WORD'')]"

text \<open>
  \<open>mimeMap\<close> is an object literal, so \<open>mimeMap[mimeType]\<close> also finds the members the
  literal inherits from \<open>Object.prototype\<close>: for these twelve keys it yields a function
  (for \<open>__proto__\<close> the prototype object), which is truthy and not a string.
\<close>

definition objectPrototypeKeys :: "string list" where
  "objectPrototypeKeys =
     [''constructor'', ''__defineGetter__'', ''__defineSetter__'', ''hasOwnProperty'',
      ''__lookupGetter__'', ''__lookupSetter__'', ''isPrototypeOf'', ''propertyIsEnumerable'',
      ''toString'', ''valueOf'', ''__proto__'', ''toLocaleString'']"

text \<open>
  What \<open>getFormatFromMime\<close> returns: a string, or the member of \<open>Object.prototype\<close> with
  the given name.
\<close>

datatype formatValue = Label string | Inherited string

text \<open>
  \<open>mimeMap[mimeType] || mimeType.split("/").pop()?.toUpperCase() || "UNKNOWN"\<close>. Every
  value of the table is a non-empty string and every inherited member is truthy, so the
  first alternative is taken exactly when the key is in the table or inherited; \<open>split\<close>
  never returns the empty array, so the last alternative is taken exactly when the text
  after the last slash is empty. \<open>toUpperCase\<close> is the ASCII one: the result is the
  source's for a content type of ASCII characters (\<open>isAscii\<close>).
\<close>

definition getFormatFromMime :: "string \<Rightarrow> formatValue" where
  "getFormatFromMime mimeType =
     (case map_of mimeMap mimeType of
        Some f \<Rightarrow> Label f
      | None \<Rightarrow>
          if mimeType \<in> set objectPrototypeKeys then Inherited mimeType
          else (let u = toUpperCase (last (split_on (CHR ''/'') mimeType))
                in if u \<noteq> [] then Label u else Label ''UNKNOWN''))"

definition isAscii :: "string \<Rightarrow> bool" where
  "isAscii s = list_all (\<lambda>c. (of_char c :: nat) < 128) s"

text \<open>
  \<open>`${originalFormat}`\<close> in a template literal: the string itself, or the text Node gives
  for the inherited member (a native function; for \<open>constructor\<close> the function \<open>Object\<close>;
  for \<open>__proto__\<close> the prototype object).
\<close>

fun formatText :: "formatValue \<Rightarrow> string" where
  "formatText (Label l) = l"
| "formatText (Inherited k) =
     (if k = ''__proto__'' then ''[object Object]''
      else ''function '' @ (if k = ''constructor'' then ''Object'' else k)
             @ ''() { [native code] }'')"

definition isWordMime :: "string \<Rightarrow> bool" where
  "isWordMime mimeType =
     (mimeType = ''application/msword'' \<or>
      mimeType = ''application/vnd.openxmlformats-officedocument.wordprocessingml.document'')"

definition isImageMime :: "string \<Rightarrow> bool" where
  "isImageMime mimeType = startsWith mimeType ''image/''"

definition isPdfMime :: "string \<Rightarrow> bool" where
  "isPdfMime mimeType = (mimeType = ''application/pdf'')"

definition isTextMime :: "string \<Rightarrow> bool" where
  "isTextMime mimeType = (mimeType = ''text/plain'')"

text \<open>
  The source has no classifier function of its own: the request handler tests the four
  predicates, in the order image, PDF, Word, text, and falls through to a default branch.
  \<open>classifySource\<close> names that decision.
\<close>

datatype SourceKind = Image | Pdf | PlainText | WordDocument | Unknown

definition classifySource :: "string \<Rightarrow> SourceKind" where
  "classifySource mimeType =
     (if isImageMime mimeType then Image
      else if isPdfMime mimeType then Pdf
      else if isWordMime mimeType then WordDocument
      else if isTextMime mimeType then PlainText
      else Unknown)"

section \<open>The Word-to-PDF sanitizer\<close>

text \<open>The three \<open>replace\<close> passes of \<open>sanitizeTextForPdf\<close>, each over every code unit.\<close>

definition isControl :: "16 word \<Rightarrow> bool" where
  "isControl c = ((0x0000 \<le> c \<and> c \<le> 0x001F) \<or> (0x007F \<le> c \<and> c \<le> 0x009F))"

definition isPrivateUse :: "16 word \<Rightarrow> bool" where
  "isPrivateUse c = (0xF000 \<le> c \<and> c \<le> 0xFFFF)"

definition isPlain :: "16 word \<Rightarrow> bool" where
  "isPlain c = ((0x0020 \<le> c \<and> c \<le> 0x007E) \<or> c = LF \<or> c = TAB)"

definition replacements :: "(16 word \<times> jsstring) list" where
  "replacements =
     [(0x2022, [0x002D]), (0x2023, [0x002D]), (0x2043, [0x002D]),
      (0x2018, [0x0027]), (0x2019, [0x0027]), (0x201C, [0x0022]), (0x201D, [0x0022]),
      (0x2013, [0x002D]), (0x2014, [0x002D, 0x002D]), (0x2026, [0x002E, 0x002E, 0x002E]),
      (0x00A0, [0x0020]), (0x00B7, [0x002D])]"

definition replaceChar :: "16 word \<Rightarrow> jsstring" where
  "replaceChar c =
     (if isPlain c then [c]
      else (case map_of replacements c of Some r \<Rightarrow> r | None \<Rightarrow> [SPACE]))"

definition sanitizeTextForPdf :: "jsstring \<Rightarrow> jsstring" where
  "sanitizeTextForPdf text =
     concat (map replaceChar
       (filter (\<lambda>c. \<not> isPrivateUse c) (filter (\<lambda>c. \<not> isControl c) text)))"

section \<open>Text-to-PDF line wrapping and page layout\<close>

definition maxCharsPerLine :: nat where
  "maxCharsPerLine = 80"

text \<open>
  \<open>let breakPoint = remaining.lastIndexOf(" ", maxCharsPerLine);
  if (breakPoint === -1) breakPoint = maxCharsPerLine;\<close>
\<close>

definition breakPoint :: "jsstring \<Rightarrow> nat" where
  "breakPoint remaining =
     (case lastIndexOf SPACE maxCharsPerLine remaining of
        None \<Rightarrow> maxCharsPerLine
      | Some i \<Rightarrow> i)"

lemma length_trim_le: "length (trim s) \<le> length s"
proof -
  have "length (trim s) \<le> length (trimStart s)"
    unfolding trim_def trimEnd_def
    by (metis length_dropWhile_le length_rev)
  also have "\<dots> \<le> length s"
    unfolding trimStart_def by (rule length_dropWhile_le)
  finally show ?thesis .
qed

lemma length_trim_leading_space:
  assumes "s \<noteq> []" and "hd s = SPACE"
  shows "length (trim s) < length s"
proof -
  obtain x xs where s: "s = x # xs" using assms(1) by (cases s) auto
  with assms(2) have "isWhiteSpace x" by (simp add: isWhiteSpace_def)
  then have "trimStart s = dropWhile isWhiteSpace xs"
    by (simp add: s trimStart_def)
  then have "length (trimStart s) \<le> length xs"
    by (simp add: length_dropWhile_le)
  moreover have "length (trim s) \<le> length (trimStart s)"
    unfolding trim_def trimEnd_def
    by (metis length_dropWhile_le length_rev)
  ultimately show ?thesis by (simp add: s)
qed

lemma lastIndexIn_Some_nth:
  "lastIndexIn c xs = Some i \<Longrightarrow> i < length xs \<and> xs ! i = c"
proof (induction xs arbitrary: i)
  case Nil
  then show ?case by simp
next
  case (Cons x xs)
  then show ?case
    by (cases "lastIndexIn c xs") (auto split: if_splits)
qed

lemma breakPoint_zero_hd:
  assumes "breakPoint r = 0" and "r \<noteq> []"
  shows "hd r = SPACE"
proof -
  from assms(1) have "lastIndexOf SPACE maxCharsPerLine r = Some 0"
    by (auto simp: breakPoint_def maxCharsPerLine_def split: option.splits)
  then have "take (Suc maxCharsPerLine) r ! 0 = SPACE"
    unfolding lastIndexOf_def by (auto dest: lastIndexIn_Some_nth)
  with assms(2) show ?thesis
    by (cases r) auto
qed

lemma wrap_step_shorter:
  assumes "maxCharsPerLine < length r"
  shows "length (trim (drop (breakPoint r) r)) < length r"
proof (cases "breakPoint r = 0")
  case True
  from assms have "r \<noteq> []" by auto
  with True have "hd r = SPACE" by (rule breakPoint_zero_hd)
  with \<open>r \<noteq> []\<close> have "length (trim r) < length r"
    by (rule length_trim_leading_space)
  with True show ?thesis by simp
next
  case False
  have "length (trim (drop (breakPoint r) r)) \<le> length (drop (breakPoint r) r)"
    by (rule length_trim_le)
  also have "\<dots> < length r"
    using False assms by simp
  finally show ?thesis .
qed

text \<open>
  The \<open>while (remaining.length > maxCharsPerLine)\<close> loop together with the
  \<open>if (remaining) wrappedLines.push(remaining)\<close> after it: the lines it pushes, in order.
\<close>

function wrapLoop :: "jsstring \<Rightarrow> jsstring list" where
  "wrapLoop remaining =
     (if maxCharsPerLine < length remaining
      then take (breakPoint remaining) remaining
             # wrapLoop (trim (drop (breakPoint remaining) remaining))
      else if remaining \<noteq> [] then [remaining] else [])"
  by pat_completeness auto
termination
  by (relation "measure length") (auto intro: wrap_step_shorter)

declare wrapLoop.simps [simp del]

text \<open>The body of \<open>for (const line of lines)\<close>.\<close>

definition wrapLine :: "jsstring \<Rightarrow> jsstring list" where
  "wrapLine line = (if length line \<le> maxCharsPerLine then [line] else wrapLoop line)"

definition wrapText :: "jsstring \<Rightarrow> jsstring list" where
  "wrapText text = concat (map wrapLine (split_on LF text))"

text \<open>
  The page geometry of \<open>convertTextToPdf\<close>. \<open>lineHeight = fontSize * 1.5\<close> is the integer
  18, and every coordinate the loop computes is an integer, so the arithmetic is exact;
  \<open>Math.floor((pageHeight - 2 * margin) / lineHeight)\<close> is integer division.
\<close>

definition pageWidth :: int where "pageWidth = 612"
definition pageHeight :: int where "pageHeight = 792"
definition margin :: int where "margin = 50"
definition fontSize :: int where "fontSize = 12"
definition lineHeight :: int where "lineHeight = (fontSize * 3) div 2"

definition linesPerPage :: nat where
  "linesPerPage = nat ((pageHeight - 2 * margin) div lineHeight)"

text \<open>One \<open>currentPage.drawText(line, {x, y, size, font})\<close> call, with the index of its page.\<close>

record drawOp =
  pageIndex :: nat
  xPos :: int
  yPos :: int
  fontSz :: int
  content :: jsstring

text \<open>
  The drawing loop, from the state (\<open>currentPage\<close>, \<open>y\<close>, \<open>lineCount\<close>): the calls it makes.
\<close>

fun drawLines :: "jsstring list \<Rightarrow> nat \<Rightarrow> int \<Rightarrow> nat \<Rightarrow> drawOp list" where
  "drawLines [] pg y lineCount = []"
| "drawLines (line # ls) pg y lineCount =
     (if linesPerPage \<le> lineCount
      then \<lparr>pageIndex = Suc pg, xPos = margin, yPos = (pageHeight - margin) - lineHeight,
             fontSz = fontSize, content = line\<rparr>
           # drawLines ls (Suc pg) ((pageHeight - margin) - lineHeight) 1
      else \<lparr>pageIndex = pg, xPos = margin, yPos = y - lineHeight,
             fontSz = fontSize, content = line\<rparr>
           # drawLines ls pg (y - lineHeight) (Suc lineCount))"

definition layoutText :: "jsstring \<Rightarrow> drawOp list" where
  "layoutText text = drawLines (wrapText text) 0 (pageHeight - margin) 0"

section \<open>The file system, exceptions and the external collaborators\<close>

text \<open>
  A path is a directory (\<open>uploads\<close> or \<open>converted\<close> under the working directory) and a
  file name in it. The world is the set of files that exist, together with two records
  kept for the statements below and never read by the program: every successful
  \<open>fs.unlinkSync\<close>, in order, and every strategy a chain has tried, with its outcome.
\<close>

datatype dir = UploadsDir | ConvertedDir

type_synonym path = "dir \<times> string"

datatype exn = Error string | NonError

text \<open>\<open>error.message\<close>, absent on a thrown value that is not an \<open>Error\<close>.\<close>

fun message :: "exn \<Rightarrow> string option" where
  "message (Error m) = Some m"
| "message NonError = None"

text \<open>\<open>`${error.message}`\<close> in a template literal.\<close>

fun messageText :: "exn \<Rightarrow> string" where
  "messageText (Error m) = m"
| "messageText NonError = ''undefined''"

datatype strategy =
  Remote | LocalImageToPdf | LocalRasterize | PdfToWordSnapshot | PdfToWordBasic | WordToPdfBasic

record world =
  files :: "path set"
  unlinked :: "path list"
  attempts :: "(strategy \<times> bool) list"

type_synonym 'a io = "world \<Rightarrow> (exn + 'a) \<times> world"

datatype render_result = Rendered | NoResult | RenderThrows exn

datatype exec_result = ExecOk | ExecFailed bool

datatype site =
  RemoteSite | ImageToPdfSite | SnapshotSite | PdfToWordBasicSite | WordToPdfBasicSite
  | TextToPdfSite | CopySite

text \<open>
  What the code does not decide: the configuration, the clock, and the outcome of every
  call into a library, a child process or the remote service. An \<open>exn option\<close> is
  \<open>None\<close> when the call returns and \<open>Some e\<close> when it throws \<open>e\<close>. A call that
  writes a file writes it when it returns and leaves nothing behind when it throws.
  \<^item> \<open>cloudConvert\<close>: a CloudConvert credential is configured;
  \<^item> \<open>requestTime\<close>, \<open>snapshotTime\<close>: \<open>Date.now()\<close> in the handler and in the snapshot strategy;
  \<^item> \<open>parseName\<close>: \<open>path.parse(name).name\<close>; \<open>extName\<close>:
    \<open>path.extname(p).toLowerCase().replace(".", "")\<close>;
  \<^item> \<open>remoteJob input from to\<close>: the CloudConvert job, from \<open>jobs.create\<close> to
    \<open>response.arrayBuffer()\<close>;
  \<^item> \<open>sharpToFile input format\<close>: \<open>sharp(input).<format>().toFile(output)\<close>;
  \<^item> \<open>pdf2pic input density saveFilename format page\<close>: \<open>fromPath(input, options)(page)\<close>,
    which writes \<open>savePath/saveFilename.page.format\<close> when it returns a result with a path;
  \<^item> \<open>pdftotext layout input\<close>: the child process; the flag of \<open>ExecFailed\<close> says
    whether its \<open>stderr\<close> includes \<open>Syntax Error\<close>;
  \<^item> \<open>pdfPageCount\<close>: \<open>PDFDocument.load(bytes).getPageCount()\<close>;
  \<^item> \<open>imageMeta\<close>: \<open>sharp(buffer).metadata()\<close> on a page image; \<open>packDocx\<close>: building the
    \<open>Document\<close> and \<open>Packer.toBuffer\<close>;
  \<^item> \<open>mammoth\<close>: \<open>mammoth.extractRawText\<close>, with the text it extracts;
  \<^item> \<open>readText\<close>: the decoded content of a text file;
  \<^item> \<open>pdfWordLayout lines\<close>: pdf-lib in the Word-to-PDF strategy (font embedding, width
    measurement, drawing, \<open>save\<close>); \<open>pdfTextSave ops\<close>: pdf-lib in the text-to-PDF strategy;
    \<open>imagePdf\<close>: pdf-lib and sharp in the local image-to-PDF code;
  \<^item> \<open>writeError site path\<close>: \<open>fs.writeFileSync\<close> or \<open>fs.copyFileSync\<close> at that place of
    the code.
\<close>

record env =
  cloudConvert :: bool
  requestTime :: nat
  snapshotTime :: nat
  parseName :: "string \<Rightarrow> string"
  extName :: "string \<Rightarrow> string"
  remoteJob :: "path \<Rightarrow> string \<Rightarrow> string \<Rightarrow> exn option"
  sharpToFile :: "path \<Rightarrow> SupportedFormat \<Rightarrow> exn option"
  pdf2pic :: "path \<Rightarrow> nat \<Rightarrow> string \<Rightarrow> string \<Rightarrow> nat \<Rightarrow> render_result"
  pdftotext :: "bool \<Rightarrow> path \<Rightarrow> exec_result"
  pdfPageCount :: "path \<Rightarrow> exn + nat"
  imageMeta :: "path \<Rightarrow> exn option"
  packDocx :: "site \<Rightarrow> path \<Rightarrow> exn option"
  mammoth :: "path \<Rightarrow> exn + jsstring"
  readText :: "path \<Rightarrow> jsstring"
  pdfWordLayout :: "jsstring list \<Rightarrow> exn option"
  pdfTextSave :: "drawOp list \<Rightarrow> exn option"
  imagePdf :: "path \<Rightarrow> exn option"
  writeError :: "site \<Rightarrow> path \<Rightarrow> exn option"

subsection \<open>Control flow\<close>

definition succeed :: "unit io" where
  "succeed w = (Inr (), w)"

definition throw :: "exn \<Rightarrow> unit io" where
  "throw e w = (Inl e, w)"

text \<open>An external call that touches no file.\<close>

definition external :: "exn option \<Rightarrow> unit io" where
  "external outcome = (case outcome of None \<Rightarrow> succeed | Some e \<Rightarrow> throw e)"

text \<open>\<open>m; k\<close>\<close>

definition andThen :: "unit io \<Rightarrow> 'a io \<Rightarrow> 'a io" where
  "andThen m k w = (case m w of (Inl e, w1) \<Rightarrow> (Inl e, w1) | (Inr u, w1) \<Rightarrow> k w1)"

text \<open>\<open>try { m } catch (error) { h(error) }\<close>\<close>

definition tryCatch :: "'a io \<Rightarrow> (exn \<Rightarrow> 'a io) \<Rightarrow> 'a io" where
  "tryCatch m h w = (case m w of (Inl e, w1) \<Rightarrow> h e w1 | (Inr u, w1) \<Rightarrow> (Inr u, w1))"

text \<open>\<open>try { await m; return; } catch (error) { console.error(...) }\<close> followed by \<open>rest\<close>.\<close>

definition tryFirst :: "unit io \<Rightarrow> unit io \<Rightarrow> unit io" where
  "tryFirst m rest = tryCatch m (\<lambda>e. rest)"

text \<open>The record of a strategy a chain tries: the strategy and whether it succeeded.\<close>

definition attempt :: "strategy \<Rightarrow> unit io \<Rightarrow> unit io" where
  "attempt s m w =
     (case m w of (r, w1) \<Rightarrow> (r, w1\<lparr>attempts := attempts w1 @ [(s, \<not> isl r)]\<rparr>))"

subsection \<open>File operations\<close>

definition existsSync :: "path \<Rightarrow> world \<Rightarrow> bool" where
  "existsSync p w = (p \<in> files w)"

definition ENOENT :: exn where
  "ENOENT = Error ''ENOENT: no such file or directory''"

definition unlinkSync :: "path \<Rightarrow> unit io" where
  "unlinkSync p w =
     (if p \<in> files w
      then (Inr (), w\<lparr>files := files w - {p}, unlinked := unlinked w @ [p]\<rparr>)
      else (Inl ENOENT, w))"

text \<open>A file written by an external tool, or by a write that succeeds.\<close>

definition created :: "path \<Rightarrow> world \<Rightarrow> world" where
  "created p w = w\<lparr>files := insert p (files w)\<rparr>"

definition writeFileSync :: "env \<Rightarrow> site \<Rightarrow> path \<Rightarrow> unit io" where
  "writeFileSync env st p w =
     (case writeError env st p of
        Some e \<Rightarrow> (Inl e, w)
      | None \<Rightarrow> (Inr (), created p w))"

definition readFile :: "path \<Rightarrow> unit io" where
  "readFile p w = (if p \<in> files w then (Inr (), w) else (Inl ENOENT, w))"

definition renameSync :: "path \<Rightarrow> path \<Rightarrow> unit io" where
  "renameSync src dst w =
     (if src \<in> files w
      then (Inr (), w\<lparr>files := insert dst (files w - {src})\<rparr>)
      else (Inl ENOENT, w))"

definition copyFileSync :: "env \<Rightarrow> path \<Rightarrow> path \<Rightarrow> unit io" where
  "copyFileSync env src dst = andThen (readFile src) (writeFileSync env CopySite dst)"

text \<open>The file pdf2pic writes for a page.\<close>

definition pagePath :: "string \<Rightarrow> nat \<Rightarrow> string \<Rightarrow> path" where
  "pagePath saveFilename page fmt = (ConvertedDir, saveFilename @ ''.'' @ dec page @ ''.'' @ fmt)"

text \<open>An external tool that writes the file \<open>p\<close> when it returns.\<close>

definition produce :: "exn option \<Rightarrow> path \<Rightarrow> unit io" where
  "produce outcome p = andThen (external outcome) (\<lambda>w. (Inr (), created p w))"

text \<open>\<open>if (fs.existsSync(p)) { fs.unlinkSync(p); }\<close>\<close>

definition unlinkIfExists :: "path \<Rightarrow> unit io" where
  "unlinkIfExists p w = (if existsSync p w then unlinkSync p w else succeed w)"

section \<open>The conversion strategies\<close>

definition convertWithCloudConvert :: "env \<Rightarrow> path \<Rightarrow> path \<Rightarrow> string \<Rightarrow> string \<Rightarrow> unit io" where
  "convertWithCloudConvert env inputPath outputPath inputFormat outputFormat =
     (if \<not> cloudConvert env then throw (Error ''CloudConvert API key not configured'')
      else tryCatch
             (andThen (external (remoteJob env inputPath inputFormat outputFormat))
                      (writeFileSync env RemoteSite outputPath))
             (\<lambda>error. throw (Error (''CloudConvert conversion failed: '' @ messageText error))))"

definition convertImage :: "env \<Rightarrow> path \<Rightarrow> path \<Rightarrow> SupportedFormat \<Rightarrow> unit io" where
  "convertImage env inputPath outputPath targetFormat =
     (case targetFormat of
        PNG \<Rightarrow> produce (sharpToFile env inputPath PNG) outputPath
      | JPG \<Rightarrow> produce (sharpToFile env inputPath JPG) outputPath
      | WEBP \<Rightarrow> produce (sharpToFile env inputPath WEBP) outputPath
      | TIFF \<Rightarrow> produce (sharpToFile env inputPath TIFF) outputPath
      | _ \<Rightarrow> throw (Error (''Unsupported image format: '' @ formatName targetFormat)))"

definition lowerFormat :: "SupportedFormat \<Rightarrow> string" where
  "lowerFormat targetFormat = toLowerCase (formatName targetFormat)"

text \<open>The local code of \<open>convertPdfToImage\<close>, after the remote block.\<close>

definition rasterizeFirstPage :: "env \<Rightarrow> path \<Rightarrow> path \<Rightarrow> SupportedFormat \<Rightarrow> unit io" where
  "rasterizeFirstPage env inputPath outputPath targetFormat =
     (case pdf2pic env inputPath 150 ''temp-pdf-page'' (lowerFormat targetFormat) 1 of
        Rendered \<Rightarrow>
          (\<lambda>w. (if targetFormat = PNG \<or> targetFormat = JPG
                then renameSync (pagePath ''temp-pdf-page'' 1 (lowerFormat targetFormat)) outputPath
                else andThen
                       (convertImage env (pagePath ''temp-pdf-page'' 1 (lowerFormat targetFormat))
                          outputPath targetFormat)
                       (unlinkSync (pagePath ''temp-pdf-page'' 1 (lowerFormat targetFormat))))
               (created (pagePath ''temp-pdf-page'' 1 (lowerFormat targetFormat)) w))
      | NoResult \<Rightarrow> throw (Error ''Failed to convert PDF to image'')
      | RenderThrows e \<Rightarrow> throw e)"

definition convertPdfToImage :: "env \<Rightarrow> path \<Rightarrow> path \<Rightarrow> SupportedFormat \<Rightarrow> unit io" where
  "convertPdfToImage env inputPath outputPath targetFormat =
     (let local = attempt LocalRasterize (rasterizeFirstPage env inputPath outputPath targetFormat)
      in if cloudConvert env
         then tryFirst
                (attempt Remote
                   (convertWithCloudConvert env inputPath outputPath ''pdf'' (lowerFormat targetFormat)))
                local
         else local)"

definition convertPdfToText :: "env \<Rightarrow> path \<Rightarrow> path \<Rightarrow> unit io" where
  "convertPdfToText env inputPath outputPath =
     (case pdftotext env False inputPath of
        ExecOk \<Rightarrow> (\<lambda>w. (Inr (), created outputPath w))
      | ExecFailed syntaxError \<Rightarrow>
          if syntaxError
          then throw (Error ''The PDF file appears to be corrupted or invalid. Please try a different PDF file.'')
          else throw (Error ''Failed to extract text from PDF. Please ensure the PDF contains readable text.''))"

definition execError :: exn where
  "execError = Error ''Command failed''"

definition convertPdfToWordBasic :: "env \<Rightarrow> path \<Rightarrow> path \<Rightarrow> unit io" where
  "convertPdfToWordBasic env inputPath outputPath =
     (let tempTxtPath = (fst inputPath, snd inputPath @ ''.txt'')
      in tryCatch
           (andThen (case pdftotext env True inputPath of
                       ExecOk \<Rightarrow> (\<lambda>w. (Inr (), created tempTxtPath w))
                     | ExecFailed syntaxError \<Rightarrow> throw execError)
           (andThen (readFile tempTxtPath)
           (andThen (external (packDocx env PdfToWordBasicSite inputPath))
           (andThen (writeFileSync env PdfToWordBasicSite outputPath)
                    (unlinkIfExists tempTxtPath)))))
           (\<lambda>error. andThen (unlinkIfExists tempTxtPath)
              (throw (Error ''Failed to convert PDF to WORD. The PDF may not contain extractable text.''))))"

definition getPdfPageCount :: "env \<Rightarrow> path \<Rightarrow> exn + nat" where
  "getPdfPageCount env inputPath = pdfPageCount env inputPath"

text \<open>
  The page loop of \<open>convertPdfToWordSnapshot\<close> over the pages still to render, with the
  \<open>imagePaths\<close> pushed so far; the list is returned on a throw as well, since the
  \<open>finally\<close> block reads it.
\<close>

fun renderPages ::
  "env \<Rightarrow> path \<Rightarrow> string \<Rightarrow> nat list \<Rightarrow> path list \<Rightarrow> world \<Rightarrow> (exn + unit) \<times> path list \<times> world"
where
  "renderPages env inputPath saveFilename [] imagePaths w = (Inr (), imagePaths, w)"
| "renderPages env inputPath saveFilename (page # pages) imagePaths w =
     (case pdf2pic env inputPath 180 saveFilename ''png'' page of
        Rendered \<Rightarrow>
          renderPages env inputPath saveFilename pages
            (imagePaths @ [pagePath saveFilename page ''png''])
            (created (pagePath saveFilename page ''png'') w)
      | NoResult \<Rightarrow> (Inl (Error (''Failed to render page '' @ dec page)), imagePaths, w)
      | RenderThrows e \<Rightarrow> (Inl e, imagePaths, w))"

text \<open>The loop that reads every page image and its metadata.\<close>

fun embedPages :: "env \<Rightarrow> path list \<Rightarrow> unit io" where
  "embedPages env [] = succeed"
| "embedPages env (imgPath # rest) =
     andThen (readFile imgPath) (andThen (external (imageMeta env imgPath)) (embedPages env rest))"

text \<open>The loop of the \<open>finally\<close> block.\<close>

fun cleanup :: "path list \<Rightarrow> unit io" where
  "cleanup [] = succeed"
| "cleanup (imgPath # rest) = andThen (unlinkIfExists imgPath) (cleanup rest)"

definition snapshotName :: "env \<Rightarrow> string" where
  "snapshotName env = ''pdf-snapshot-'' @ dec (snapshotTime env)"

definition convertPdfToWordSnapshot :: "env \<Rightarrow> path \<Rightarrow> path \<Rightarrow> unit io" where
  "convertPdfToWordSnapshot env inputPath outputPath w =
     (case getPdfPageCount env inputPath of
        Inl e \<Rightarrow> (Inl e, w)
      | Inr pageCount \<Rightarrow>
          if pageCount = 0 then (Inl (Error ''PDF appears to be empty''), w)
          else
            (case renderPages env inputPath (snapshotName env) [1..<Suc pageCount] [] w of
               (rendered, imagePaths, w1) \<Rightarrow>
                 (case (case rendered of
                          Inl e \<Rightarrow> (Inl e, w1)
                        | Inr u \<Rightarrow>
                            andThen (embedPages env imagePaths)
                              (andThen (external (packDocx env SnapshotSite inputPath))
                                 (writeFileSync env SnapshotSite outputPath)) w1) of
                    (tried, w2) \<Rightarrow>
                      (case cleanup imagePaths w2 of
                         (Inl e, w3) \<Rightarrow> (Inl e, w3)
                       | (Inr u, w3) \<Rightarrow> (tried, w3)))))"

definition convertPdfToWord :: "env \<Rightarrow> path \<Rightarrow> path \<Rightarrow> unit io" where
  "convertPdfToWord env inputPath outputPath =
     (let local =
            tryFirst (attempt PdfToWordSnapshot (convertPdfToWordSnapshot env inputPath outputPath))
              (attempt PdfToWordBasic (convertPdfToWordBasic env inputPath outputPath))
      in if cloudConvert env
         then tryFirst
                (attempt Remote (convertWithCloudConvert env inputPath outputPath ''pdf'' ''docx''))
                local
         else local)"

definition convertWordToPdfBasic :: "env \<Rightarrow> path \<Rightarrow> path \<Rightarrow> unit io" where
  "convertWordToPdfBasic env inputPath outputPath =
     tryCatch
       (case mammoth env inputPath of
          Inl e \<Rightarrow> throw e
        | Inr text \<Rightarrow>
            if text = [] \<or> length (trim text) = 0
            then throw (Error ''No text content found in the document'')
            else andThen (external (pdfWordLayout env (split_on LF (sanitizeTextForPdf text))))
                   (writeFileSync env WordToPdfBasicSite outputPath))
       (\<lambda>error. throw (Error ''Failed to convert WORD to PDF. The document may be corrupted.''))"

text \<open>
  \<open>inputPath\<close> is \<open>uploads/<stored name>\<close> and a stored name is longer than four
  characters, so \<open>inputPath.toLowerCase().endsWith(".doc")\<close> is decided by the name.
\<close>

definition isOldDoc :: "path \<Rightarrow> string \<Rightarrow> bool" where
  "isOldDoc inputPath mimeType =
     (mimeType = ''application/msword'' \<or> endsWith (toLowerCase (snd inputPath)) ''.doc'')"

definition docMessage :: string where
  "docMessage = ''Cannot convert .doc files without CloudConvert. Please use .docx format or ensure CloudConvert API key is configured.''"

definition convertWordToPdf :: "env \<Rightarrow> path \<Rightarrow> path \<Rightarrow> string \<Rightarrow> unit io" where
  "convertWordToPdf env inputPath outputPath mimeType =
     (let inputFormat = (if isOldDoc inputPath mimeType then ''doc'' else ''docx'');
          local =
            (if isOldDoc inputPath mimeType then throw (Error docMessage)
             else attempt WordToPdfBasic (convertWordToPdfBasic env inputPath outputPath))
      in if cloudConvert env
         then tryFirst
                (attempt Remote (convertWithCloudConvert env inputPath outputPath inputFormat ''pdf''))
                local
         else local)"

definition convertImageToPdf :: "env \<Rightarrow> path \<Rightarrow> path \<Rightarrow> unit io" where
  "convertImageToPdf env inputPath outputPath =
     (let local =
            attempt LocalImageToPdf
              (andThen (external (imagePdf env inputPath))
                 (writeFileSync env ImageToPdfSite outputPath))
      in if cloudConvert env
         then tryFirst
                (attempt Remote
                   (convertWithCloudConvert env inputPath outputPath (extName env (snd inputPath)) ''pdf''))
                local
         else local)"

definition convertTextToPdf :: "env \<Rightarrow> path \<Rightarrow> path \<Rightarrow> unit io" where
  "convertTextToPdf env inputPath outputPath =
     andThen (readFile inputPath)
       (andThen (external (pdfTextSave env (layoutText (readText env inputPath))))
          (writeFileSync env TextToPdfSite outputPath))"

section \<open>The request handler\<close>

text \<open>
  The uploaded file as multer describes it; \<open>file.path\<close> is the stored name in the
  uploads directory.
\<close>

record upload =
  originalname :: string
  mimetype :: string
  storedName :: string

definition filePath :: "upload \<Rightarrow> path" where
  "filePath f = (UploadsDir, storedName f)"

record ConversionResponse =
  status :: nat
  success :: bool
  filename :: "string option"
  downloadUrl :: "string option"
  error :: "string option"
  originalFormat :: "formatValue option"
  targetFormat :: "string option"

definition failure :: "nat \<Rightarrow> string \<Rightarrow> ConversionResponse" where
  "failure code msg =
     \<lparr>status = code, success = False, filename = None, downloadUrl = None, error = Some msg,
      originalFormat = None, targetFormat = None\<rparr>"

definition outputFilename :: "env \<Rightarrow> upload \<Rightarrow> SupportedFormat \<Rightarrow> string" where
  "outputFilename env f tf =
     parseName env (originalname f) @ ''-converted.'' @ getExtensionFromFormat tf"

definition outputPathOf :: "env \<Rightarrow> upload \<Rightarrow> SupportedFormat \<Rightarrow> path" where
  "outputPathOf env f tf = (ConvertedDir, dec (requestTime env) @ ''-'' @ outputFilename env f tf)"

definition converted :: "env \<Rightarrow> upload \<Rightarrow> SupportedFormat \<Rightarrow> ConversionResponse" where
  "converted env f tf =
     \<lparr>status = 200, success = True, filename = Some (outputFilename env f tf),
      downloadUrl = Some (''/api/download/'' @ snd (outputPathOf env f tf)), error = None,
      originalFormat = Some (getFormatFromMime (mimetype f)),
      targetFormat = Some (formatName tf)\<rparr>"

text \<open>The message of the fall-through at the end of the \<open>try\<close> block.\<close>

definition unsupportedMessage :: "string \<Rightarrow> SupportedFormat \<Rightarrow> string" where
  "unsupportedMessage mimeType tf =
     ''Cannot convert '' @ formatText (getFormatFromMime mimeType) @ '' to '' @ formatName tf
       @ ''. '' @
     (if isImageMime mimeType
      then ''Images can be converted to: '' @ join '', '' (map formatName IMAGE_FORMATS) @ '', PDF.''
      else if isPdfMime mimeType
      then ''PDFs can be converted to: '' @ join '', '' (map formatName IMAGE_FORMATS) @ '', TXT, WORD.''
      else if isWordMime mimeType
      then ''WORD documents can be converted to: PDF.''
      else if isTextMime mimeType
      then ''Text files can be converted to: PDF, TXT.''
      else ''This file format is not supported for conversion.'')"

definition unsupported :: "upload \<Rightarrow> SupportedFormat \<Rightarrow> ConversionResponse" where
  "unsupported f tf =
     \<lparr>status = 400, success = False, filename = None, downloadUrl = None,
      error = Some (unsupportedMessage (mimetype f) tf),
      originalFormat = Some (getFormatFromMime (mimetype f)),
      targetFormat = Some (formatName tf)\<rparr>"

text \<open>
  The chain of \<open>if\<close> statements of the handler, in the source's order: the conversion the
  first matching branch runs, or \<open>None\<close> when the request falls through all nine.
\<close>

definition dispatch :: "env \<Rightarrow> upload \<Rightarrow> SupportedFormat \<Rightarrow> unit io option" where
  "dispatch env f tf =
     (let inputPath = filePath f;
          outputPath = outputPathOf env f tf;
          isImageSource = isImageMime (mimetype f);
          isPdfSource = isPdfMime (mimetype f);
          isTextSource = isTextMime (mimetype f);
          isImageTarget = (tf \<in> set IMAGE_FORMATS);
          isWordSource = isWordMime (mimetype f)
      in if isImageSource \<and> isImageTarget then Some (convertImage env inputPath outputPath tf)
         else if isImageSource \<and> tf = PDF then Some (convertImageToPdf env inputPath outputPath)
         else if isPdfSource \<and> isImageTarget then Some (convertPdfToImage env inputPath outputPath tf)
         else if isPdfSource \<and> tf = TXT then Some (convertPdfToText env inputPath outputPath)
         else if isPdfSource \<and> tf = WORD then Some (convertPdfToWord env inputPath outputPath)
         else if isWordSource \<and> tf = PDF
         then Some (convertWordToPdf env inputPath outputPath (mimetype f))
         else if isWordSource \<and> tf = WORD then Some (copyFileSync env inputPath outputPath)
         else if isTextSource \<and> tf = PDF then Some (convertTextToPdf env inputPath outputPath)
         else if isTextSource \<and> tf = TXT then Some (copyFileSync env inputPath outputPath)
         else None)"

definition invalidTargetMessage :: string where
  "invalidTargetMessage =
     ''Invalid target format. Supported formats: '' @ join '', '' (map formatName SUPPORTED_FORMATS)"

text \<open>
  The \<open>try\<close> block for an uploaded file. Every branch has the same shape: convert, delete
  the upload, respond.
\<close>

definition tryBlock :: "env \<Rightarrow> upload \<Rightarrow> string option \<Rightarrow> ConversionResponse io" where
  "tryBlock env f raw =
     (case safeParse raw of
        None \<Rightarrow>
          andThen (unlinkSync (filePath f)) (\<lambda>w. (Inr (failure 400 invalidTargetMessage), w))
      | Some tf \<Rightarrow>
          (case dispatch env f tf of
             Some convert \<Rightarrow>
               andThen convert
                 (andThen (unlinkSync (filePath f)) (\<lambda>w. (Inr (converted env f tf), w)))
           | None \<Rightarrow>
               andThen (unlinkSync (filePath f)) (\<lambda>w. (Inr (unsupported f tf), w))))"

definition defaultMessage :: string where
  "defaultMessage = ''An error occurred during conversion. Please try again with a different file or format.''"

text \<open>\<open>error?.message || "An error occurred ..."\<close>\<close>

definition errorMessage :: "exn \<Rightarrow> string" where
  "errorMessage e =
     (case message e of
        Some m \<Rightarrow> if m \<noteq> [] then m else defaultMessage
      | None \<Rightarrow> defaultMessage)"

text \<open>
  The \<open>catch\<close> block; its \<open>unlinkSync\<close> runs only on a file that exists, so it does not
  throw.
\<close>

definition catchBlock :: "upload \<Rightarrow> exn \<Rightarrow> world \<Rightarrow> ConversionResponse \<times> world" where
  "catchBlock f e w = (failure 500 (errorMessage e), snd (unlinkIfExists (filePath f) w))"

definition noFileMessage :: string where
  "noFileMessage = ''No file uploaded. Please select a file to convert.''"

definition convertHandler ::
  "env \<Rightarrow> upload option \<Rightarrow> string option \<Rightarrow> world \<Rightarrow> ConversionResponse \<times> world"
where
  "convertHandler env file raw w =
     (case file of
        None \<Rightarrow> (failure 400 noFileMessage, w)
      | Some f \<Rightarrow>
          (case tryBlock env f raw w of
             (Inr response, w1) \<Rightarrow> (response, w1)
           | (Inl e, w1) \<Rightarrow> catchBlock f e w1))"

section \<open>Example data\<close>

text \<open>
  A configuration without a CloudConvert credential in which every external call
  succeeds, a two-page PDF, a Word document whose raw text is two spaces, an upload and the
  world in which multer has stored it.
\<close>

definition exampleEnv :: env where
  "exampleEnv = \<lparr>cloudConvert = False, requestTime = 42, snapshotTime = 43,
     parseName = (\<lambda>n. takeWhile (\<lambda>c. c \<noteq> CHR ''.'') n), extName = (\<lambda>n. ''png''),
     remoteJob = (\<lambda>p a b. None), sharpToFile = (\<lambda>p f. None),
     pdf2pic = (\<lambda>p d n f k. Rendered), pdftotext = (\<lambda>l p. ExecOk),
     pdfPageCount = (\<lambda>p. Inr 2), imageMeta = (\<lambda>p. None), packDocx = (\<lambda>s p. None),
     mammoth = (\<lambda>p. Inr [SPACE, SPACE]), readText = (\<lambda>p. [0x48, 0x69]),
     pdfWordLayout = (\<lambda>ls. None), pdfTextSave = (\<lambda>ops. None), imagePdf = (\<lambda>p. None),
     writeError = (\<lambda>s p. None)\<rparr>"

definition exampleUpload :: "string \<Rightarrow> upload" where
  "exampleUpload mimeType =
     \<lparr>originalname = ''a.bin'', mimetype = mimeType, storedName = ''1-2-a.bin''\<rparr>"

definition exampleWorld :: world where
  "exampleWorld = \<lparr>files = {(UploadsDir, ''1-2-a.bin'')}, unlinked = [], attempts = []\<rparr>"

definition docxType :: string where
  "docxType = ''application/vnd.openxmlformats-officedocument.wordprocessingml.document''"

text \<open>The uploaded PDF and the path of its Word output.\<close>

definition pdfInput :: path where
  "pdfInput = filePath (exampleUpload ''application/pdf'')"

definition docxOutput :: path where
  "docxOutput = outputPathOf exampleEnv (exampleUpload ''application/pdf'') WORD"

text \<open>
  The example configuration with a credential, where the remote job and the rendering of
  the second page fail.
\<close>

definition remoteAndSnapshotFail :: env where
  "remoteAndSnapshotFail =
     exampleEnv\<lparr>cloudConvert := True, remoteJob := \<lambda>p a b. Some (Error ''Bad Gateway''),
                 pdf2pic := \<lambda>p d n f page. if page = 2 then NoResult else Rendered\<rparr>"

section \<open>The sanitizer removes every line break\<close>

lemma replacements_range:
  "map_of replacements c = Some r \<Longrightarrow> set r \<subseteq> {0x002D, 0x0027, 0x0022, 0x002E, 0x0020}"
  by (auto simp: replacements_def split: if_splits)

lemma replaceChar_no_breaks:
  assumes "\<not> isControl c" and "x \<in> set (replaceChar c)"
  shows "x \<noteq> TAB \<and> x \<noteq> LF \<and> x \<noteq> CR"
proof (cases "isPlain c")
  case True
  with assms(2) have "x = c" by (simp add: replaceChar_def)
  with assms(1) show ?thesis by (auto simp: isControl_def)
next
  case False
  show ?thesis
  proof (cases "map_of replacements c")
    case None
    with False assms(2) have "x = SPACE" by (simp add: replaceChar_def)
    then show ?thesis by simp
  next
    case (Some r)
    with False assms(2) have "x \<in> set r" by (simp add: replaceChar_def)
    with replacements_range [OF Some] have "x \<in> {0x002D, 0x0027, 0x0022, 0x002E, 0x0020}"
      by blast
    then show ?thesis by auto
  qed
qed

lemma sanitize_no_breaks:
  "x \<in> set (sanitizeTextForPdf text) \<Longrightarrow> x \<noteq> TAB \<and> x \<noteq> LF \<and> x \<noteq> CR"
  unfolding sanitizeTextForPdf_def
  by (auto dest: replaceChar_no_breaks)

lemma split_on_absent: "d \<notin> set xs \<Longrightarrow> split_on d xs = [xs]"
  by (induction xs) auto

lemma first_pass_strips:
  "x \<in> set (filter (\<lambda>c. \<not> isControl c) text) \<Longrightarrow> x \<noteq> TAB \<and> x \<noteq> LF \<and> x \<noteq> CR"
  by (auto simp: isControl_def)

text \<open>The example configuration with a Word document of two lines.\<close>

definition twoLineDocument :: env where
  "twoLineDocument = exampleEnv\<lparr>mammoth := \<lambda>p. Inr [0x0041, LF, 0x0042]\<rparr>"

text \<open>
  C10. For every input string the result of \<open>sanitizeTextForPdf\<close> contains no tab, newline
  or carriage return: the first pass already strips them with the whole control range
  \<open>U+0000\<close> to \<open>U+001F\<close>, although the last pass would keep a newline and a tab. So
  the \<open>text.split("\\n")\<close> of the Word-to-PDF strategy always yields the sanitized text
  as its single line: for a document whose raw text is not blank, the strategy lays out
  that one line, whatever line breaks the document had.
\<close>

theorem sanitize_loses_line_breaks:
  "TAB \<notin> set (filter (\<lambda>c. \<not> isControl c) s)
   \<and> LF \<notin> set (filter (\<lambda>c. \<not> isControl c) s)
   \<and> CR \<notin> set (filter (\<lambda>c. \<not> isControl c) s)
   \<and> replaceChar LF = [LF] \<and> replaceChar TAB = [TAB]
   \<and> TAB \<notin> set (sanitizeTextForPdf s)
   \<and> LF \<notin> set (sanitizeTextForPdf s)
   \<and> CR \<notin> set (sanitizeTextForPdf s)
   \<and> split_on LF (sanitizeTextForPdf s) = [sanitizeTextForPdf s]
   \<and> (mammoth env inputPath = Inr s \<and> trim s \<noteq> [] \<longrightarrow>
        convertWordToPdfBasic env inputPath outputPath =
          tryCatch
            (andThen (external (pdfWordLayout env [sanitizeTextForPdf s]))
               (writeFileSync env WordToPdfBasicSite outputPath))
            (\<lambda>error. throw (Error ''Failed to convert WORD to PDF. The document may be corrupted.'')))"
proof -
  have a: "TAB \<notin> set (sanitizeTextForPdf s)" "LF \<notin> set (sanitizeTextForPdf s)"
    "CR \<notin> set (sanitizeTextForPdf s)"
    using sanitize_no_breaks by blast+
  have b: "TAB \<notin> set (filter (\<lambda>c. \<not> isControl c) s)"
    "LF \<notin> set (filter (\<lambda>c. \<not> isControl c) s)"
    "CR \<notin> set (filter (\<lambda>c. \<not> isControl c) s)"
    using first_pass_strips by blast+
  have c: "replaceChar LF = [LF]" "replaceChar TAB = [TAB]"
    by (simp_all add: replaceChar_def isPlain_def)
  from a have d: "split_on LF (sanitizeTextForPdf s) = [sanitizeTextForPdf s]"
    by (simp add: split_on_absent)
  have e: "convertWordToPdfBasic env inputPath outputPath =
          tryCatch
            (andThen (external (pdfWordLayout env [sanitizeTextForPdf s]))
               (writeFileSync env WordToPdfBasicSite outputPath))
            (\<lambda>error. throw (Error ''Failed to convert WORD to PDF. The document may be corrupted.''))"
    if "mammoth env inputPath = Inr s" and "trim s \<noteq> []"
  proof -
    from that(2) have "s \<noteq> []" by (auto simp: trim_def trimStart_def trimEnd_def)
    with that d show ?thesis by (simp add: convertWordToPdfBasic_def)
  qed
  from a b c d e show ?thesis by blast
qed

theorem sanitize_loses_line_breaks_witness:
  "mammoth twoLineDocument (filePath (exampleUpload docxType)) = Inr [0x0041, LF, 0x0042]
   \<and> trim [0x0041, LF, 0x0042] \<noteq> []
   \<and> sanitizeTextForPdf [0x0041, LF, 0x0042] = [0x0041, 0x0042]
   \<and> convertWordToPdfBasic twoLineDocument (filePath (exampleUpload docxType))
        (ConvertedDir, ''out.pdf'') =
          tryCatch
            (andThen (external (pdfWordLayout twoLineDocument [[0x0041, 0x0042]]))
               (writeFileSync twoLineDocument WordToPdfBasicSite (ConvertedDir, ''out.pdf'')))
            (\<lambda>error. throw (Error ''Failed to convert WORD to PDF. The document may be corrupted.''))
   \<and> split_on LF (sanitizeTextForPdf [0x0041, LF, 0x0042, TAB, 0x2014, CR, 0xF001, 0x3042])
       = [[0x0041, 0x0042, 0x002D, 0x002D, SPACE]]"
proof -
  have m: "mammoth twoLineDocument (filePath (exampleUpload docxType)) = Inr [0x0041, LF, 0x0042]"
    by code_simp
  have t: "trim [0x0041, LF, 0x0042] \<noteq> []" by code_simp
  have s1: "sanitizeTextForPdf [0x0041, LF, 0x0042] = [0x0041, 0x0042]" by code_simp
  have s2: "sanitizeTextForPdf [0x0041, LF, 0x0042, TAB, 0x2014, CR, 0xF001, 0x3042]
      = [0x0041, 0x0042, 0x002D, 0x002D, SPACE]" by code_simp
  from sanitize_loses_line_breaks [of "[0x0041, LF, 0x0042]" twoLineDocument
      "filePath (exampleUpload docxType)" "(ConvertedDir, ''out.pdf'')"] m t
  have "convertWordToPdfBasic twoLineDocument (filePath (exampleUpload docxType))
        (ConvertedDir, ''out.pdf'') =
          tryCatch
            (andThen (external (pdfWordLayout twoLineDocument
                        [sanitizeTextForPdf [0x0041, LF, 0x0042]]))
               (writeFileSync twoLineDocument WordToPdfBasicSite (ConvertedDir, ''out.pdf'')))
            (\<lambda>error. throw (Error ''Failed to convert WORD to PDF. The document may be corrupted.''))"
    by blast
  moreover from sanitize_loses_line_breaks
      [of "[0x0041, LF, 0x0042, TAB, 0x2014, CR, 0xF001, 0x3042]"]
  have "split_on LF (sanitizeTextForPdf [0x0041, LF, 0x0042, TAB, 0x2014, CR, 0xF001, 0x3042])
      = [sanitizeTextForPdf [0x0041, LF, 0x0042, TAB, 0x2014, CR, 0xF001, 0x3042]]"
    by blast
  ultimately show ?thesis using m t s1 s2 by simp
qed

section \<open>Classification of content types\<close>

lemma handler_fall_through:
  assumes "safeParse raw = Some tf" and "dispatch env f tf = None" and "filePath f \<in> files w"
  shows "convertHandler env (Some f) raw w =
           (unsupported f tf,
            w\<lparr>files := files w - {filePath f}, unlinked := unlinked w @ [filePath f]\<rparr>)"
  using assms by (simp add: convertHandler_def tryBlock_def andThen_def unlinkSync_def)

lemma dispatch_Unknown:
  "classifySource (mimetype f) = Unknown \<Longrightarrow> dispatch env f tf = None"
  by (simp add: classifySource_def dispatch_def Let_def split: if_splits)

lemma image_keys_are_images:
  "isImageMime (fst (mimeMap ! 0))" "isImageMime (fst (mimeMap ! 1))"
  "isImageMime (fst (mimeMap ! 2))" "isImageMime (fst (mimeMap ! 3))"
  by (simp_all add: mimeMap_def isImageMime_def startsWith_def)

lemma Unknown_not_in_mimeMap:
  assumes "classifySource m = Unknown"
  shows "map_of mimeMap m = None"
proof -
  from assms have n: "\<not> isImageMime m" "\<not> isPdfMime m" "\<not> isWordMime m" "\<not> isTextMime m"
    by (simp_all add: classifySource_def split: if_splits)
  have "m \<noteq> fst (mimeMap ! 0)" "m \<noteq> fst (mimeMap ! 1)" "m \<noteq> fst (mimeMap ! 2)"
    "m \<noteq> fst (mimeMap ! 3)"
    using n(1) image_keys_are_images by metis+
  moreover have "m \<noteq> fst (mimeMap ! 4)" "m \<noteq> fst (mimeMap ! 5)" "m \<noteq> fst (mimeMap ! 6)"
    "m \<noteq> fst (mimeMap ! 7)"
    using n(2,3,4) by (simp_all add: mimeMap_def isPdfMime_def isWordMime_def isTextMime_def)
  ultimately show ?thesis
    by (simp add: mimeMap_def)
qed

text \<open>
  C7, as amended. The classification is total: a content type is an image exactly when it
  starts with \<open>image/\<close>, a PDF, a Word document or plain text exactly when it is one of
  the known strings, and \<open>Unknown\<close> otherwise. A request with a valid target format whose
  content type is \<open>Unknown\<close> and consists of ASCII characters gets the default
  not-supported message, and the original format reported is the upper-cased text after
  the last slash of the content type; \<open>UNKNOWN\<close> is reported only when that text is empty.
  (A content type that is the name of a member of \<open>Object.prototype\<close>, such as
  \<open>constructor\<close>, is \<open>Unknown\<close> too; what is reported for it is that inherited member.)
\<close>

theorem classifySource_total:
  "(classifySource m = Image \<longleftrightarrow> isImageMime m)
   \<and> (classifySource m = Pdf \<longleftrightarrow> isPdfMime m)
   \<and> (classifySource m = WordDocument \<longleftrightarrow> isWordMime m)
   \<and> (classifySource m = PlainText \<longleftrightarrow> isTextMime m)
   \<and> (classifySource m = Unknown \<longleftrightarrow>
        \<not> isImageMime m \<and> \<not> isPdfMime m \<and> \<not> isWordMime m \<and> \<not> isTextMime m)
   \<and> (classifySource (mimetype f) = Unknown \<longrightarrow> isAscii (mimetype f) \<longrightarrow>
        safeParse raw = Some tf \<longrightarrow> filePath f \<in> files w \<longrightarrow>
          fst (convertHandler env (Some f) raw w) = unsupported f tf
          \<and> error (unsupported f tf) =
              Some (''Cannot convert '' @ formatText (getFormatFromMime (mimetype f)) @ '' to ''
                    @ formatName tf @ ''. This file format is not supported for conversion.'')
          \<and> originalFormat (unsupported f tf) = Some (getFormatFromMime (mimetype f))
          \<and> getFormatFromMime (mimetype f) =
              (if mimetype f \<in> set objectPrototypeKeys then Inherited (mimetype f)
               else if last (split_on (CHR ''/'') (mimetype f)) = [] then Label ''UNKNOWN''
               else Label (toUpperCase (last (split_on (CHR ''/'') (mimetype f))))))"
proof -
  have kinds: "(classifySource m = Image \<longleftrightarrow> isImageMime m)
   \<and> (classifySource m = Pdf \<longleftrightarrow> isPdfMime m)
   \<and> (classifySource m = WordDocument \<longleftrightarrow> isWordMime m)
   \<and> (classifySource m = PlainText \<longleftrightarrow> isTextMime m)
   \<and> (classifySource m = Unknown \<longleftrightarrow>
        \<not> isImageMime m \<and> \<not> isPdfMime m \<and> \<not> isWordMime m \<and> \<not> isTextMime m)"
    by (auto simp: classifySource_def isImageMime_def isPdfMime_def isWordMime_def
        isTextMime_def startsWith_def)
  have unknown: "fst (convertHandler env (Some f) raw w) = unsupported f tf
          \<and> error (unsupported f tf) =
              Some (''Cannot convert '' @ formatText (getFormatFromMime (mimetype f)) @ '' to ''
                    @ formatName tf @ ''. This file format is not supported for conversion.'')
          \<and> originalFormat (unsupported f tf) = Some (getFormatFromMime (mimetype f))
          \<and> getFormatFromMime (mimetype f) =
              (if mimetype f \<in> set objectPrototypeKeys then Inherited (mimetype f)
               else if last (split_on (CHR ''/'') (mimetype f)) = [] then Label ''UNKNOWN''
               else Label (toUpperCase (last (split_on (CHR ''/'') (mimetype f)))))"
    if u: "classifySource (mimetype f) = Unknown" and p: "safeParse raw = Some tf"
      and e: "filePath f \<in> files w"
  proof -
    have "fst (convertHandler env (Some f) raw w) = unsupported f tf"
      using handler_fall_through [OF p dispatch_Unknown [OF u] e] by simp
    moreover have "\<not> isImageMime (mimetype f)" "\<not> isPdfMime (mimetype f)"
      "\<not> isWordMime (mimetype f)" "\<not> isTextMime (mimetype f)"
      using u by (simp_all add: classifySource_def split: if_splits)
    then have "error (unsupported f tf) =
              Some (''Cannot convert '' @ formatText (getFormatFromMime (mimetype f)) @ '' to ''
                    @ formatName tf @ ''. This file format is not supported for conversion.'')"
      by (simp add: unsupported_def unsupportedMessage_def)
    moreover have "originalFormat (unsupported f tf) = Some (getFormatFromMime (mimetype f))"
      by (simp add: unsupported_def)
    moreover have "getFormatFromMime (mimetype f) =
              (if mimetype f \<in> set objectPrototypeKeys then Inherited (mimetype f)
               else if last (split_on (CHR ''/'') (mimetype f)) = [] then Label ''UNKNOWN''
               else Label (toUpperCase (last (split_on (CHR ''/'') (mimetype f)))))"
      using Unknown_not_in_mimeMap [OF u]
      by (simp add: getFormatFromMime_def Let_def toUpperCase_def)
    ultimately show ?thesis by blast
  qed
  from kinds unknown show ?thesis by blast
qed

theorem classifySource_total_witness:
  "classifySource ''audio/mpeg'' = Unknown
   \<and> isAscii ''audio/mpeg''
   \<and> ''audio/mpeg'' \<notin> set objectPrototypeKeys
   \<and> safeParse (Some ''PNG'') = Some PNG
   \<and> filePath (exampleUpload ''audio/mpeg'') \<in> files exampleWorld
   \<and> error (fst (convertHandler exampleEnv (Some (exampleUpload ''audio/mpeg'')) (Some ''PNG'')
                   exampleWorld))
       = Some ''Cannot convert MPEG to PNG. This file format is not supported for conversion.''
   \<and> originalFormat (fst (convertHandler exampleEnv (Some (exampleUpload ''audio/mpeg''))
                            (Some ''PNG'') exampleWorld))
       = Some (Label ''MPEG'')"
proof -
  let ?f = "exampleUpload ''audio/mpeg''"
  have u: "classifySource (mimetype ?f) = Unknown" by code_simp
  have u': "classifySource ''audio/mpeg'' = Unknown" by code_simp
  have a: "isAscii (mimetype ?f)" by code_simp
  have a': "isAscii ''audio/mpeg''" by code_simp
  have k: "''audio/mpeg'' \<notin> set objectPrototypeKeys" by code_simp
  have p: "safeParse (Some ''PNG'') = Some PNG" by code_simp
  have e: "filePath ?f \<in> files exampleWorld" by code_simp
  have g: "getFormatFromMime (mimetype ?f) = Label ''MPEG''" by code_simp
  from classifySource_total [of "''audio/mpeg''" ?f "Some ''PNG''" PNG exampleWorld exampleEnv]
    u a p e
  have "fst (convertHandler exampleEnv (Some ?f) (Some ''PNG'') exampleWorld) = unsupported ?f PNG"
    and "error (unsupported ?f PNG) =
           Some (''Cannot convert '' @ formatText (getFormatFromMime (mimetype ?f))
                 @ '' to '' @ formatName PNG @ ''. This file format is not supported for conversion.'')"
    and "originalFormat (unsupported ?f PNG) = Some (getFormatFromMime (mimetype ?f))"
    by blast+
  with g u' a' k p e show ?thesis by simp
qed

text \<open>
  C7 as stated fails: for \<open>audio/mpeg\<close> the original format reported is \<open>MPEG\<close>, not
  \<open>UNKNOWN\<close>.
\<close>

theorem unrecognized_reported_as_subtype:
  "\<not> (classifySource ''audio/mpeg'' = Unknown \<longrightarrow>
        originalFormat (fst (convertHandler exampleEnv (Some (exampleUpload ''audio/mpeg''))
           (Some ''PNG'') exampleWorld)) = Some (Label ''UNKNOWN''))"
  by code_simp

section \<open>Text-to-PDF wrapping and layout\<close>

lemma lastIndexIn_None: "lastIndexIn c xs = None \<longleftrightarrow> c \<notin> set xs"
  by (induction xs) (auto split: option.splits)

lemma lastIndexIn_Some_last:
  "lastIndexIn c xs = Some i \<Longrightarrow> i < j \<Longrightarrow> j < length xs \<Longrightarrow> xs ! j \<noteq> c"
proof (induction xs arbitrary: i j)
  case Nil
  then show ?case by simp
next
  case (Cons x xs)
  show ?case
  proof (cases "lastIndexIn c xs")
    case None
    then have "c \<notin> set xs" by (simp add: lastIndexIn_None)
    moreover from Cons.prems have "0 < j" by simp
    ultimately show ?thesis using Cons.prems(3)
      by (cases j) auto
  next
    case (Some k)
    with Cons.prems(1) have i: "i = Suc k" by simp
    with Cons.prems(2) obtain j' where j: "j = Suc j'" by (cases j) auto
    with i Cons.prems have "k < j'" "j' < length xs" by simp_all
    with Cons.IH [OF Some] have "xs ! j' \<noteq> c" by blast
    with j show ?thesis by simp
  qed
qed

lemma breakPoint_le: "breakPoint r \<le> maxCharsPerLine"
proof (cases "lastIndexOf SPACE maxCharsPerLine r")
  case None
  then show ?thesis by (simp add: breakPoint_def)
next
  case (Some i)
  then have "i < length (take (Suc maxCharsPerLine) r)"
    unfolding lastIndexOf_def by (auto dest: lastIndexIn_Some_nth)
  with Some show ?thesis by (simp add: breakPoint_def)
qed

lemma breakPoint_space:
  assumes "i \<le> maxCharsPerLine" and "i < length r" and "r ! i = SPACE"
  shows "breakPoint r < length r \<and> r ! breakPoint r = SPACE \<and> i \<le> breakPoint r"
proof -
  let ?t = "take (Suc maxCharsPerLine) r"
  from assms have it: "i < length ?t" and "?t ! i = SPACE" by simp_all
  then have "SPACE \<in> set ?t" by (metis nth_mem)
  then obtain k where k: "lastIndexIn SPACE ?t = Some k"
    using lastIndexIn_None [of SPACE ?t] by (cases "lastIndexIn SPACE ?t") auto
  then have bp: "breakPoint r = k" by (simp add: breakPoint_def lastIndexOf_def)
  from k have kl: "k < length ?t" and ks: "?t ! k = SPACE"
    by (auto dest: lastIndexIn_Some_nth)
  have "i \<le> k"
  proof (rule ccontr)
    assume "\<not> i \<le> k"
    then have "k < i" by simp
    from lastIndexIn_Some_last [OF k this it] \<open>?t ! i = SPACE\<close> show False by simp
  qed
  with bp kl ks show ?thesis by simp
qed

lemma breakPoint_no_space:
  assumes "\<forall>i. i \<le> maxCharsPerLine \<and> i < length r \<longrightarrow> r ! i \<noteq> SPACE"
  shows "breakPoint r = maxCharsPerLine"
proof -
  let ?t = "take (Suc maxCharsPerLine) r"
  have "SPACE \<notin> set ?t"
  proof
    assume "SPACE \<in> set ?t"
    then obtain i where "i < length ?t" "?t ! i = SPACE" by (auto simp: in_set_conv_nth)
    with assms show False by auto
  qed
  then have "lastIndexIn SPACE ?t = None" by (simp add: lastIndexIn_None)
  then show ?thesis by (simp add: breakPoint_def lastIndexOf_def)
qed

lemma wrapLoop_bounded: "l \<in> set (wrapLoop r) \<Longrightarrow> length l \<le> maxCharsPerLine"
proof (induction r arbitrary: l rule: wrapLoop.induct)
  case (1 remaining)
  show ?case
  proof (cases "maxCharsPerLine < length remaining")
    case True
    with "1.prems" have "l = take (breakPoint remaining) remaining
        \<or> l \<in> set (wrapLoop (trim (drop (breakPoint remaining) remaining)))"
      by (simp add: wrapLoop.simps [of remaining])
    then show ?thesis
    proof
      assume "l = take (breakPoint remaining) remaining"
      then show ?thesis using breakPoint_le [of remaining] by simp
    next
      assume "l \<in> set (wrapLoop (trim (drop (breakPoint remaining) remaining)))"
      with "1.IH" True show ?thesis by blast
    qed
  next
    case False
    with "1.prems" show ?thesis
      by (simp add: wrapLoop.simps [of remaining] split: if_splits)
  qed
qed

lemma wrapLine_bounded: "l \<in> set (wrapLine line) \<Longrightarrow> length l \<le> maxCharsPerLine"
  by (auto simp: wrapLine_def dest: wrapLoop_bounded split: if_splits)

lemma wrapText_bounded: "l \<in> set (wrapText text) \<Longrightarrow> length l \<le> maxCharsPerLine"
  by (auto simp: wrapText_def dest: wrapLine_bounded)

lemma wrapLoop_rewrap: "wrapLoop r = (if r = [] then [] else wrapLine r)"
  by (simp add: wrapLine_def wrapLoop.simps [of r])

lemma wrapLine_long:
  assumes "maxCharsPerLine < length line"
  shows "wrapLine line =
           take (breakPoint line) line
             # (if trim (drop (breakPoint line) line) = [] then []
                else wrapLine (trim (drop (breakPoint line) line)))"
proof -
  from assms have "wrapLine line = wrapLoop line" by (simp add: wrapLine_def)
  also from assms have "\<dots> = take (breakPoint line) line
      # wrapLoop (trim (drop (breakPoint line) line))"
    by (simp add: wrapLoop.simps [of line])
  finally show ?thesis by (simp add: wrapLoop_rewrap)
qed

lemma linesPerPage_38: "linesPerPage = 38"
  by (simp add: linesPerPage_def pageHeight_def margin_def lineHeight_def fontSize_def)

lemma add_self_div_mod:
  "0 < n \<Longrightarrow> (n + m) div n = Suc (m div n) \<and> (n + m) mod n = m mod n" for n m :: nat
  by (simp add: div_add_self1)

lemma length_drawLines: "length (drawLines ls pg y lc) = length ls"
  by (induction ls arbitrary: pg y lc) auto

lemma drawLines_nth:
  assumes "k < length ls" and "lc \<le> linesPerPage"
    and "y = (pageHeight - margin) - lineHeight * int lc"
  shows "drawLines ls pg y lc ! k =
           \<lparr>pageIndex = pg + (lc + k) div linesPerPage, xPos = margin,
            yPos = (pageHeight - margin) - lineHeight * (int ((lc + k) mod linesPerPage) + 1),
            fontSz = fontSize, content = ls ! k\<rparr>"
  using assms
proof (induction ls arbitrary: pg y lc k)
  case Nil
  then show ?case by simp
next
  case (Cons line ls)
  show ?case
  proof (cases "linesPerPage \<le> lc")
    case True
    with Cons.prems have lc: "lc = linesPerPage" by simp
    show ?thesis
    proof (cases k)
      case 0
      with lc show ?thesis by (simp add: linesPerPage_38)
    next
      case (Suc k')
      with Cons.prems have "k' < length ls" by simp
      moreover have "(1::nat) \<le> linesPerPage" by (simp add: linesPerPage_38)
      moreover have "(pageHeight - margin) - lineHeight
          = (pageHeight - margin) - lineHeight * int (1::nat)" by simp
      ultimately have "drawLines ls (Suc pg) ((pageHeight - margin) - lineHeight) 1 ! k' =
           \<lparr>pageIndex = Suc pg + (1 + k') div linesPerPage, xPos = margin,
            yPos = (pageHeight - margin) - lineHeight * (int ((1 + k') mod linesPerPage) + 1),
            fontSz = fontSize, content = ls ! k'\<rparr>"
        by (rule Cons.IH)
      moreover have "(linesPerPage + Suc k') div linesPerPage = Suc (Suc k' div linesPerPage)
          \<and> (linesPerPage + Suc k') mod linesPerPage = Suc k' mod linesPerPage"
        by (rule add_self_div_mod) (simp add: linesPerPage_38)
      then have "(lc + k) div linesPerPage = Suc ((1 + k') div linesPerPage)"
        and "(lc + k) mod linesPerPage = (1 + k') mod linesPerPage"
        unfolding lc Suc by simp_all
      ultimately show ?thesis using True Suc by simp
    qed
  next
    case False
    then have lt: "lc < linesPerPage" by simp
    show ?thesis
    proof (cases k)
      case 0
      with False lt Cons.prems(3) show ?thesis by (simp add: algebra_simps)
    next
      case (Suc k')
      with Cons.prems have "k' < length ls" by simp
      moreover from lt have "Suc lc \<le> linesPerPage" by simp
      moreover from Cons.prems(3) have "y - lineHeight
          = (pageHeight - margin) - lineHeight * int (Suc lc)"
        by (simp add: algebra_simps)
      ultimately have "drawLines ls pg (y - lineHeight) (Suc lc) ! k' =
           \<lparr>pageIndex = pg + (Suc lc + k') div linesPerPage, xPos = margin,
            yPos = (pageHeight - margin) - lineHeight * (int ((Suc lc + k') mod linesPerPage) + 1),
            fontSz = fontSize, content = ls ! k'\<rparr>"
        by (rule Cons.IH)
      with False Suc show ?thesis by simp
    qed
  qed
qed

lemma layoutText_nth:
  assumes "k < length (wrapText text)"
  shows "layoutText text ! k =
           \<lparr>pageIndex = k div linesPerPage, xPos = margin,
            yPos = (pageHeight - margin) - lineHeight * (int (k mod linesPerPage) + 1),
            fontSz = fontSize, content = wrapText text ! k\<rparr>"
  unfolding layoutText_def
  using drawLines_nth [OF assms, of 0 "pageHeight - margin" 0] by simp

lemma split_on_nonempty: "split_on d xs \<noteq> []"
  by (induction xs) (auto split: list.splits)

lemma join_Cons: "ys \<noteq> [] \<Longrightarrow> join sep (x # ys) = x @ sep @ join sep ys"
  by (cases ys) simp_all

lemma join_split_on: "join [d] (split_on d xs) = xs"
proof (induction xs)
  case Nil
  then show ?case by simp
next
  case (Cons x xs)
  obtain y ys where s: "split_on d xs = y # ys"
    using split_on_nonempty [of d xs] by (cases "split_on d xs") auto
  show ?case
  proof (cases "x = d")
    case True
    with Cons.IH show ?thesis by (simp add: join_Cons split_on_nonempty)
  next
    case False
    with Cons.IH s show ?thesis by (cases ys) simp_all
  qed
qed

lemma split_on_no_separator: "l \<in> set (split_on d xs) \<Longrightarrow> d \<notin> set l"
proof (induction xs arbitrary: l)
  case Nil
  then show ?case by simp
next
  case (Cons x xs)
  show ?case
  proof (cases "x = d")
    case True
    with Cons show ?thesis by auto
  next
    case False
    obtain y ys where s: "split_on d xs = y # ys"
      using split_on_nonempty [of d xs] by (cases "split_on d xs") auto
    with False Cons.prems have "l = x # y \<or> l \<in> set ys" by simp
    moreover from s Cons.IH have "d \<notin> set y" "\<And>l. l \<in> set ys \<Longrightarrow> d \<notin> set l" by simp_all
    ultimately show ?thesis using False by auto
  qed
qed

lemma content_drawLines: "map content (drawLines ls pg y lc) = ls"
  by (induction ls arbitrary: pg y lc) auto

lemma convertTextToPdf_returns:
  assumes "convertTextToPdf env inputPath outputPath w = (Inr (), w')"
  shows "inputPath \<in> files w
         \<and> pdfTextSave env (layoutText (readText env inputPath)) = None
         \<and> w' = created outputPath w"
  using assms
  by (auto simp: convertTextToPdf_def andThen_def readFile_def external_def succeed_def
      throw_def writeFileSync_def split: if_splits option.splits)

definition exampleLine :: jsstring where
  "exampleLine = replicate 50 0x0041 @ [SPACE] @ replicate 50 0x0042"

text \<open>
  C8. The text-to-PDF strategy wraps each line of the input at 80 code units. A line of
  at most 80 is emitted unchanged. A longer line is cut at \<open>breakPoint\<close>: the greatest
  index up to 80 that holds a space, or 80 when there is none; the first piece is emitted,
  and what follows is trimmed and wrapped again (nothing more is emitted when it is
  empty). So every emitted line has at most 80 code units. The \<open>k\<close>-th emitted line is
  drawn at \<open>x = margin = 50\<close> on page \<open>k div linesPerPage\<close>, one line height of 18 below the
  previous one, where \<open>linesPerPage\<close> is computed from the page height 792, the margin
  and the line height \<open>12 * 1.5\<close>. The lines wrapped are those of the input: \<open>wrapText\<close>
  wraps, in order, the pieces of the text between its newlines (joined by newlines they
  give the text back, and none contains a newline), the lines drawn are exactly the
  wrapped lines, in order, and \<open>convertTextToPdf\<close> reads the input file, draws the layout of
  its text and writes the output: when it returns, the layout was saved and the output
  file was written.
\<close>

theorem text_to_pdf_wrapping:
  "(length line \<le> maxCharsPerLine \<longrightarrow> wrapLine line = [line])
   \<and> (maxCharsPerLine < length line \<longrightarrow>
         wrapLine line =
           take (breakPoint line) line
             # (if trim (drop (breakPoint line) line) = [] then []
                else wrapLine (trim (drop (breakPoint line) line)))
         \<and> breakPoint line \<le> maxCharsPerLine
         \<and> ((\<exists>i. i \<le> maxCharsPerLine \<and> line ! i = SPACE) \<longrightarrow>
               line ! breakPoint line = SPACE
               \<and> (\<forall>j. breakPoint line < j \<and> j \<le> maxCharsPerLine \<longrightarrow> line ! j \<noteq> SPACE))
         \<and> ((\<forall>i. i \<le> maxCharsPerLine \<longrightarrow> line ! i \<noteq> SPACE) \<longrightarrow>
               breakPoint line = maxCharsPerLine))
   \<and> (\<forall>l \<in> set (wrapText text). length l \<le> maxCharsPerLine)
   \<and> maxCharsPerLine = 80 \<and> margin = 50
   \<and> linesPerPage = nat ((792 - 2 * margin) div ((12 * 3) div 2))
   \<and> length (layoutText text) = length (wrapText text)
   \<and> (\<forall>k. k < length (wrapText text) \<longrightarrow>
         layoutText text ! k =
           \<lparr>pageIndex = k div linesPerPage, xPos = margin,
            yPos = (792 - margin) - 18 * (int (k mod linesPerPage) + 1),
            fontSz = 12, content = wrapText text ! k\<rparr>)
   \<and> wrapText text = concat (map wrapLine (split_on LF text))
   \<and> join [LF] (split_on LF text) = text
   \<and> (\<forall>l \<in> set (split_on LF text). LF \<notin> set l)
   \<and> map content (layoutText text) = wrapText text
   \<and> convertTextToPdf env inputPath outputPath =
        andThen (readFile inputPath)
          (andThen (external (pdfTextSave env (layoutText (readText env inputPath))))
             (writeFileSync env TextToPdfSite outputPath))
   \<and> (convertTextToPdf env inputPath outputPath w = (Inr (), w') \<longrightarrow>
        inputPath \<in> files w
        \<and> pdfTextSave env (layoutText (readText env inputPath)) = None
        \<and> w' = created outputPath w)"
proof -
  have short: "length line \<le> maxCharsPerLine \<longrightarrow> wrapLine line = [line]"
    by (simp add: wrapLine_def)
  have long: "wrapLine line =
           take (breakPoint line) line
             # (if trim (drop (breakPoint line) line) = [] then []
                else wrapLine (trim (drop (breakPoint line) line)))
         \<and> breakPoint line \<le> maxCharsPerLine
         \<and> ((\<exists>i. i \<le> maxCharsPerLine \<and> line ! i = SPACE) \<longrightarrow>
               line ! breakPoint line = SPACE
               \<and> (\<forall>j. breakPoint line < j \<and> j \<le> maxCharsPerLine \<longrightarrow> line ! j \<noteq> SPACE))
         \<and> ((\<forall>i. i \<le> maxCharsPerLine \<longrightarrow> line ! i \<noteq> SPACE) \<longrightarrow>
               breakPoint line = maxCharsPerLine)"
    if len: "maxCharsPerLine < length line"
  proof -
    have 1: "wrapLine line =
           take (breakPoint line) line
             # (if trim (drop (breakPoint line) line) = [] then []
                else wrapLine (trim (drop (breakPoint line) line)))"
      using len by (rule wrapLine_long)
    have 2: "breakPoint line \<le> maxCharsPerLine" by (rule breakPoint_le)
    have 3: "line ! breakPoint line = SPACE
               \<and> (\<forall>j. breakPoint line < j \<and> j \<le> maxCharsPerLine \<longrightarrow> line ! j \<noteq> SPACE)"
      if "\<exists>i. i \<le> maxCharsPerLine \<and> line ! i = SPACE"
    proof -
      from that obtain i where i: "i \<le> maxCharsPerLine" "line ! i = SPACE" by blast
      with len have "i < length line" by simp
      with i have "line ! breakPoint line = SPACE"
        using breakPoint_space by blast
      moreover have "line ! j \<noteq> SPACE" if j: "breakPoint line < j" "j \<le> maxCharsPerLine" for j
      proof
        assume "line ! j = SPACE"
        moreover from j len have "j < length line" by simp
        ultimately have "j \<le> breakPoint line"
          using j(2) breakPoint_space by blast
        with j(1) show False by simp
      qed
      ultimately show ?thesis by blast
    qed
    have 4: "breakPoint line = maxCharsPerLine"
      if "\<forall>i. i \<le> maxCharsPerLine \<longrightarrow> line ! i \<noteq> SPACE"
      using that by (intro breakPoint_no_space) blast
    from 1 2 3 4 show ?thesis by blast
  qed
  have bounded: "\<forall>l \<in> set (wrapText text). length l \<le> maxCharsPerLine"
    using wrapText_bounded by blast
  have geometry: "maxCharsPerLine = 80" "margin = 50"
    "linesPerPage = nat ((792 - 2 * margin) div ((12 * 3) div 2))"
    by (simp_all add: maxCharsPerLine_def margin_def linesPerPage_def pageHeight_def
        lineHeight_def fontSize_def)
  have len: "length (layoutText text) = length (wrapText text)"
    by (simp add: layoutText_def length_drawLines)
  have draw: "\<forall>k. k < length (wrapText text) \<longrightarrow>
         layoutText text ! k =
           \<lparr>pageIndex = k div linesPerPage, xPos = margin,
            yPos = (792 - margin) - 18 * (int (k mod linesPerPage) + 1),
            fontSz = 12, content = wrapText text ! k\<rparr>"
    using layoutText_nth [of _ "text"]
    by (simp add: pageHeight_def lineHeight_def fontSize_def)
  have lines: "wrapText text = concat (map wrapLine (split_on LF text))"
    by (simp add: wrapText_def)
  have joined: "join [LF] (split_on LF text) = text"
    by (rule join_split_on)
  have pieces: "\<forall>l \<in> set (split_on LF text). LF \<notin> set l"
  proof
    fix l
    assume "l \<in> set (split_on LF text)"
    then show "LF \<notin> set l" by (rule split_on_no_separator)
  qed
  have drawn: "map content (layoutText text) = wrapText text"
    by (simp add: layoutText_def content_drawLines)
  have strategy: "convertTextToPdf env inputPath outputPath =
        andThen (readFile inputPath)
          (andThen (external (pdfTextSave env (layoutText (readText env inputPath))))
             (writeFileSync env TextToPdfSite outputPath))"
    by (simp add: convertTextToPdf_def)
  have returns: "convertTextToPdf env inputPath outputPath w = (Inr (), w') \<longrightarrow>
        inputPath \<in> files w
        \<and> pdfTextSave env (layoutText (readText env inputPath)) = None
        \<and> w' = created outputPath w"
    using convertTextToPdf_returns by blast
  from short long have first: "(length line \<le> maxCharsPerLine \<longrightarrow> wrapLine line = [line])
   \<and> (maxCharsPerLine < length line \<longrightarrow>
         wrapLine line =
           take (breakPoint line) line
             # (if trim (drop (breakPoint line) line) = [] then []
                else wrapLine (trim (drop (breakPoint line) line)))
         \<and> breakPoint line \<le> maxCharsPerLine
         \<and> ((\<exists>i. i \<le> maxCharsPerLine \<and> line ! i = SPACE) \<longrightarrow>
               line ! breakPoint line = SPACE
               \<and> (\<forall>j. breakPoint line < j \<and> j \<le> maxCharsPerLine \<longrightarrow> line ! j \<noteq> SPACE))
         \<and> ((\<forall>i. i \<le> maxCharsPerLine \<longrightarrow> line ! i \<noteq> SPACE) \<longrightarrow>
               breakPoint line = maxCharsPerLine))"
    by blast
  show ?thesis
    using first [THEN conjunct1] first [THEN conjunct2] bounded geometry len draw lines joined
      pieces drawn strategy returns
    by (intro conjI) assumption+
qed

theorem text_to_pdf_wrapping_witness:
  "maxCharsPerLine < length exampleLine
   \<and> (50 \<le> maxCharsPerLine \<and> exampleLine ! 50 = SPACE)
   \<and> breakPoint exampleLine = 50
   \<and> wrapLine exampleLine = [replicate 50 0x0041, replicate 50 0x0042]
   \<and> replicate 50 0x0041 \<in> set (wrapText exampleLine)
   \<and> length (replicate 50 (0x0041 :: 16 word)) \<le> maxCharsPerLine
   \<and> (1 < length (wrapText exampleLine)
        \<and> layoutText exampleLine ! 1 =
             \<lparr>pageIndex = 0, xPos = 50, yPos = 706, fontSz = 12, content = replicate 50 0x0042\<rparr>)
   \<and> split_on LF [0x0048, LF, 0x0057] = [[0x0048], [0x0057]]
   \<and> [0x0048] \<in> set (split_on LF [0x0048, LF, 0x0057])
   \<and> wrapText [0x0048, LF, 0x0057] = [[0x0048], [0x0057]]
   \<and> map content (layoutText [0x0048, LF, 0x0057]) = [[0x0048], [0x0057]]
   \<and> convertTextToPdf exampleEnv (filePath (exampleUpload ''text/plain'')) (ConvertedDir, ''out.pdf'')
        exampleWorld
       = (Inr (), created (ConvertedDir, ''out.pdf'') exampleWorld)
   \<and> pdfTextSave exampleEnv
        (layoutText (readText exampleEnv (filePath (exampleUpload ''text/plain'')))) = None"
proof -
  have sp: "split_on LF [0x0048, LF, 0x0057] = [[0x0048 :: 16 word], [0x0057]]" by code_simp
  have wl1: "wrapLine [0x0048 :: 16 word] = [[0x0048]]" "wrapLine [0x0057 :: 16 word] = [[0x0057]]"
    by code_simp+
  from text_to_pdf_wrapping [of _ "[0x0048, LF, 0x0057]"]
  have "wrapText [0x0048, LF, 0x0057] = concat (map wrapLine (split_on LF [0x0048, LF, 0x0057]))"
    and dr: "map content (layoutText [0x0048, LF, 0x0057]) = wrapText [0x0048, LF, 0x0057]"
    by blast+
  then have two: "wrapText [0x0048, LF, 0x0057] = [[0x0048], [0x0057]]"
    by (simp add: sp wl1)
  with dr have two': "map content (layoutText [0x0048, LF, 0x0057]) = [[0x0048], [0x0057]]"
    by simp
  have run: "convertTextToPdf exampleEnv (filePath (exampleUpload ''text/plain''))
      (ConvertedDir, ''out.pdf'') exampleWorld
       = (Inr (), created (ConvertedDir, ''out.pdf'') exampleWorld)" by code_simp
  from text_to_pdf_wrapping [of _ _ exampleEnv "filePath (exampleUpload ''text/plain'')"
      "(ConvertedDir, ''out.pdf'')" exampleWorld "created (ConvertedDir, ''out.pdf'') exampleWorld"]
    run
  have saved: "pdfTextSave exampleEnv
        (layoutText (readText exampleEnv (filePath (exampleUpload ''text/plain'')))) = None"
    by blast
  have h1: "maxCharsPerLine < length exampleLine" by code_simp
  have h2: "50 \<le> maxCharsPerLine \<and> exampleLine ! 50 = SPACE" by code_simp
  have bp: "breakPoint exampleLine = 50" by code_simp
  have w: "wrapText exampleLine = [replicate 50 0x0041, replicate 50 0x0042]" by code_simp
  have r: "trim (drop 50 exampleLine) = replicate 50 0x0042" by code_simp
  have t: "take 50 exampleLine = replicate 50 0x0041" by code_simp
  have s: "length (replicate 50 (0x0042 :: 16 word)) \<le> maxCharsPerLine" by code_simp
  have lp: "linesPerPage = 38" by (rule linesPerPage_38)
  note inst = text_to_pdf_wrapping [of exampleLine exampleLine]
  note inst2 = text_to_pdf_wrapping [of "replicate 50 0x0042" exampleLine]
  from inst2 s have "wrapLine (replicate 50 0x0042) = [replicate 50 (0x0042 :: 16 word)]" by blast
  moreover from inst h1 have "wrapLine exampleLine =
           take (breakPoint exampleLine) exampleLine
             # (if trim (drop (breakPoint exampleLine) exampleLine) = [] then []
                else wrapLine (trim (drop (breakPoint exampleLine) exampleLine)))"
    by blast
  ultimately have wl: "wrapLine exampleLine = [replicate 50 0x0041, replicate 50 0x0042]"
    by (simp add: bp r t)
  from inst have b: "\<forall>l \<in> set (wrapText exampleLine). length l \<le> maxCharsPerLine" by blast
  have m: "replicate 50 0x0041 \<in> set (wrapText exampleLine)" by (simp add: w)
  with b have lb: "length (replicate 50 (0x0041 :: 16 word)) \<le> maxCharsPerLine" by blast
  have k: "1 < length (wrapText exampleLine)" by (simp add: w)
  from inst have "\<forall>k. k < length (wrapText exampleLine) \<longrightarrow>
         layoutText exampleLine ! k =
           \<lparr>pageIndex = k div linesPerPage, xPos = margin,
            yPos = (792 - margin) - 18 * (int (k mod linesPerPage) + 1),
            fontSz = 12, content = wrapText exampleLine ! k\<rparr>" by blast
  with k have "layoutText exampleLine ! 1 =
           \<lparr>pageIndex = 1 div linesPerPage, xPos = margin,
            yPos = (792 - margin) - 18 * (int (1 mod linesPerPage) + 1),
            fontSz = 12, content = wrapText exampleLine ! 1\<rparr>" by blast
  then have d: "layoutText exampleLine ! 1 =
             \<lparr>pageIndex = 0, xPos = 50, yPos = 706, fontSz = 12, content = replicate 50 0x0042\<rparr>"
    by (simp add: lp margin_def w)
  from h1 h2 bp wl m lb k d have "maxCharsPerLine < length exampleLine
   \<and> (50 \<le> maxCharsPerLine \<and> exampleLine ! 50 = SPACE)
   \<and> breakPoint exampleLine = 50
   \<and> wrapLine exampleLine = [replicate 50 0x0041, replicate 50 0x0042]
   \<and> replicate 50 0x0041 \<in> set (wrapText exampleLine)
   \<and> length (replicate 50 (0x0041 :: 16 word)) \<le> maxCharsPerLine
   \<and> (1 < length (wrapText exampleLine)
        \<and> layoutText exampleLine ! 1 =
             \<lparr>pageIndex = 0, xPos = 50, yPos = 706, fontSz = 12, content = replicate 50 0x0042\<rparr>)"
    by blast
  with sp two two' run saved show ?thesis by simp
qed

section \<open>The message for an unsupported Word conversion\<close>

text \<open>
  C4 at the input where the code departs from it. A \<open>.docx\<close> upload with target \<open>PNG\<close>
  falls through to the unsupported-conversion message, which names \<open>PDF\<close> as the only
  target of a Word document, although the handler converts the same upload to \<open>WORD\<close>
  (the passthrough branch).
\<close>

theorem word_message_omits_WORD:
  "error (fst (convertHandler exampleEnv (Some (exampleUpload docxType)) (Some ''PNG'') exampleWorld))
     = Some ''Cannot convert WORD to PNG. WORD documents can be converted to: PDF.''
   \<and> success (fst (convertHandler exampleEnv (Some (exampleUpload docxType)) (Some ''WORD'') exampleWorld))"
  by code_simp

section \<open>A blank Word document\<close>

text \<open>
  C9 at the input where the code departs from it. mammoth extracts two spaces from the
  document; the strategy throws its empty-document error inside its own \<open>try\<close> block, whose
  \<open>catch\<close> replaces every error by the message for a corrupted document. The strategy
  fails and writes nothing, but with the same error as for a document mammoth cannot read,
  and that message is what the handler returns.
\<close>

theorem blank_word_document_reported_as_corrupted:
  "mammoth exampleEnv (filePath (exampleUpload docxType)) = Inr [SPACE, SPACE]
   \<and> convertWordToPdfBasic exampleEnv (filePath (exampleUpload docxType)) (ConvertedDir, ''out.pdf'') exampleWorld
       = (Inl (Error ''Failed to convert WORD to PDF. The document may be corrupted.''), exampleWorld)
   \<and> convertWordToPdfBasic (exampleEnv\<lparr>mammoth := \<lambda>p. Inl (Error ''Could not find file in options'')\<rparr>)
         (filePath (exampleUpload docxType)) (ConvertedDir, ''out.pdf'') exampleWorld
       = (Inl (Error ''Failed to convert WORD to PDF. The document may be corrupted.''), exampleWorld)
   \<and> error (fst (convertHandler exampleEnv (Some (exampleUpload docxType)) (Some ''PDF'') exampleWorld))
       = Some ''Failed to convert WORD to PDF. The document may be corrupted.''"
  by code_simp

section \<open>What a conversion may delete\<close>

text \<open>
  \<open>touches quiet T w w'\<close>: from \<open>w\<close> to \<open>w'\<close> only paths of \<open>T\<close> were unlinked or removed
  (and, when \<open>quiet\<close>, no strategy attempt was recorded). \<open>confined quiet T m\<close>: every
  run of \<open>m\<close> is such a step.
\<close>

definition touches :: "bool \<Rightarrow> path set \<Rightarrow> world \<Rightarrow> world \<Rightarrow> bool" where
  "touches quiet T w w' \<longleftrightarrow>
     (quiet \<longrightarrow> attempts w' = attempts w)
     \<and> (\<exists>us. unlinked w' = unlinked w @ us \<and> set us \<subseteq> T)
     \<and> files w - T \<subseteq> files w'"

definition confined :: "bool \<Rightarrow> path set \<Rightarrow> 'a io \<Rightarrow> bool" where
  "confined quiet T m \<longleftrightarrow> (\<forall>w r w'. m w = (r, w') \<longrightarrow> touches quiet T w w')"

lemma touches_refl: "touches quiet T w w"
  by (simp add: touches_def)

lemma touches_trans:
  assumes "touches quiet T w w1" and "touches quiet T w1 w2"
  shows "touches quiet T w w2"
proof -
  from assms obtain us vs where
    "unlinked w1 = unlinked w @ us" "set us \<subseteq> T" "unlinked w2 = unlinked w1 @ vs" "set vs \<subseteq> T"
    by (auto simp: touches_def)
  then have "unlinked w2 = unlinked w @ (us @ vs) \<and> set (us @ vs) \<subseteq> T" by simp
  then have "\<exists>xs. unlinked w2 = unlinked w @ xs \<and> set xs \<subseteq> T" by blast
  moreover from assms have "files w - T \<subseteq> files w2" by (auto simp: touches_def)
  moreover from assms have "quiet \<longrightarrow> attempts w2 = attempts w" by (simp add: touches_def)
  ultimately show ?thesis by (simp add: touches_def)
qed

lemma touches_weaken: "touches True T w w' \<Longrightarrow> touches quiet T w w'"
  by (simp add: touches_def)

lemma touches_mono: "touches quiet S w w' \<Longrightarrow> S \<subseteq> T \<Longrightarrow> touches quiet T w w'"
  by (auto simp: touches_def)

lemma confinedD: "confined quiet T m \<Longrightarrow> m w = (r, w') \<Longrightarrow> touches quiet T w w'"
  by (simp add: confined_def)

lemma confined_weaken: "confined True T m \<Longrightarrow> confined quiet T m"
  by (auto simp: confined_def intro: touches_weaken)

lemma confined_mono: "confined quiet S m \<Longrightarrow> S \<subseteq> T \<Longrightarrow> confined quiet T m"
  by (auto simp: confined_def intro: touches_mono)

lemma confined_succeed: "confined quiet T succeed"
  by (simp add: confined_def succeed_def touches_refl)

lemma confined_throw: "confined quiet T (throw e)"
  by (simp add: confined_def throw_def touches_refl)

lemma confined_external: "confined quiet T (external outcome)"
  by (cases outcome) (simp_all add: external_def confined_succeed confined_throw)

lemma confined_andThen:
  assumes "confined quiet T m" and "confined quiet T k"
  shows "confined quiet T (andThen m k)"
  unfolding confined_def
proof (intro allI impI)
  fix w r w'
  assume run: "andThen m k w = (r, w')"
  obtain r1 w1 where m: "m w = (r1, w1)" by (cases "m w")
  with assms(1) have t1: "touches quiet T w w1" by (rule confinedD)
  show "touches quiet T w w'"
  proof (cases r1)
    case (Inl e)
    with run m have "w' = w1" by (simp add: andThen_def)
    with t1 show ?thesis by simp
  next
    case (Inr u)
    with run m have "k w1 = (r, w')" by (simp add: andThen_def)
    with assms(2) have "touches quiet T w1 w'" by (rule confinedD)
    with t1 show ?thesis by (rule touches_trans)
  qed
qed

lemma confined_tryCatch:
  assumes "confined quiet T m" and "\<And>e. confined quiet T (h e)"
  shows "confined quiet T (tryCatch m h)"
  unfolding confined_def
proof (intro allI impI)
  fix w r w'
  assume run: "tryCatch m h w = (r, w')"
  obtain r1 w1 where m: "m w = (r1, w1)" by (cases "m w")
  with assms(1) have t1: "touches quiet T w w1" by (rule confinedD)
  show "touches quiet T w w'"
  proof (cases r1)
    case (Inl e)
    with run m have "h e w1 = (r, w')" by (simp add: tryCatch_def)
    with assms(2) have "touches quiet T w1 w'" by (rule confinedD)
    with t1 show ?thesis by (rule touches_trans)
  next
    case (Inr u)
    with run m have "w' = w1" by (simp add: tryCatch_def)
    with t1 show ?thesis by simp
  qed
qed

lemma confined_tryFirst:
  "confined quiet T m \<Longrightarrow> confined quiet T rest \<Longrightarrow> confined quiet T (tryFirst m rest)"
  unfolding tryFirst_def by (rule confined_tryCatch)

lemma confined_attempt:
  assumes "confined False T m"
  shows "confined False T (attempt s m)"
  unfolding confined_def
proof (intro allI impI)
  fix w r w'
  assume run: "attempt s m w = (r, w')"
  obtain r1 w1 where m: "m w = (r1, w1)" by (cases "m w")
  with assms have "touches False T w w1" by (rule confinedD)
  moreover from run m have "w' = w1\<lparr>attempts := attempts w1 @ [(s, \<not> isl r1)]\<rparr>"
    by (auto simp: attempt_def)
  ultimately show "touches False T w w'" by (simp add: touches_def)
qed

lemma confined_unlinkSync: "p \<in> T \<Longrightarrow> confined quiet T (unlinkSync p)"
  by (auto simp: confined_def unlinkSync_def touches_def split: if_splits)

lemma confined_unlinkIfExists: "p \<in> T \<Longrightarrow> confined quiet T (unlinkIfExists p)"
  by (auto simp: confined_def unlinkIfExists_def succeed_def unlinkSync_def touches_def
      split: if_splits)

lemma confined_created: "confined quiet T (\<lambda>w. (Inr (), created p w))"
  by (auto simp: confined_def created_def touches_def)

lemma confined_writeFileSync: "confined quiet T (writeFileSync env st p)"
  by (auto simp: confined_def writeFileSync_def created_def touches_def split: option.splits)

lemma confined_readFile: "confined quiet T (readFile p)"
  by (auto simp: confined_def readFile_def touches_def split: if_splits)

lemma confined_renameSync: "src \<in> T \<Longrightarrow> confined quiet T (renameSync src dst)"
  by (auto simp: confined_def renameSync_def touches_def split: if_splits)

lemma confined_produce: "confined quiet T (produce outcome p)"
  unfolding produce_def
  by (intro confined_andThen confined_external confined_created)

lemma confined_copyFileSync: "confined quiet T (copyFileSync env src dst)"
  unfolding copyFileSync_def
  by (intro confined_andThen confined_readFile confined_writeFileSync)

lemma confined_after_created:
  assumes "confined quiet T m"
  shows "confined quiet T (\<lambda>w. m (created p w))"
  unfolding confined_def
proof (intro allI impI)
  fix w r w'
  assume "m (created p w) = (r, w')"
  with assms have "touches quiet T (created p w) w'" by (rule confinedD)
  moreover have "touches quiet T w (created p w)"
    by (auto simp: created_def touches_def)
  ultimately show "touches quiet T w w'" by (rule touches_trans [rotated])
qed

lemma confined_convertWithCloudConvert:
  "confined quiet T (convertWithCloudConvert env inputPath outputPath a b)"
  unfolding convertWithCloudConvert_def
  by (auto intro!: confined_throw confined_tryCatch confined_andThen confined_external
      confined_writeFileSync)

lemma confined_convertImage: "confined quiet T (convertImage env inputPath outputPath tf)"
  unfolding convertImage_def
  by (cases tf) (simp_all add: confined_produce confined_throw)

lemma confined_rasterizeFirstPage:
  assumes "pagePath ''temp-pdf-page'' 1 (lowerFormat tf) \<in> T"
  shows "confined quiet T (rasterizeFirstPage env inputPath outputPath tf)"
proof (cases "pdf2pic env inputPath 150 ''temp-pdf-page'' (lowerFormat tf) 1")
  case Rendered
  have "confined quiet T
     (if tf = PNG \<or> tf = JPG
      then renameSync (pagePath ''temp-pdf-page'' 1 (lowerFormat tf)) outputPath
      else andThen
             (convertImage env (pagePath ''temp-pdf-page'' 1 (lowerFormat tf)) outputPath tf)
             (unlinkSync (pagePath ''temp-pdf-page'' 1 (lowerFormat tf))))"
    using assms
    by (auto intro!: confined_renameSync confined_andThen confined_convertImage
        confined_unlinkSync)
  then have "confined quiet T (\<lambda>w.
     (if tf = PNG \<or> tf = JPG
      then renameSync (pagePath ''temp-pdf-page'' 1 (lowerFormat tf)) outputPath
      else andThen
             (convertImage env (pagePath ''temp-pdf-page'' 1 (lowerFormat tf)) outputPath tf)
             (unlinkSync (pagePath ''temp-pdf-page'' 1 (lowerFormat tf))))
       (created (pagePath ''temp-pdf-page'' 1 (lowerFormat tf)) w))"
    by (rule confined_after_created)
  with Rendered show ?thesis by (simp add: rasterizeFirstPage_def)
next
  case NoResult
  then show ?thesis by (simp add: rasterizeFirstPage_def confined_throw)
next
  case (RenderThrows e)
  then show ?thesis by (simp add: rasterizeFirstPage_def confined_throw)
qed

lemma confined_convertPdfToText: "confined quiet T (convertPdfToText env inputPath outputPath)"
  unfolding convertPdfToText_def
  by (auto intro!: confined_throw confined_created split: exec_result.split)

lemma confined_convertPdfToWordBasic:
  assumes "(fst inputPath, snd inputPath @ ''.txt'') \<in> T"
  shows "confined quiet T (convertPdfToWordBasic env inputPath outputPath)"
  unfolding convertPdfToWordBasic_def Let_def
  using assms
  by (auto intro!: confined_tryCatch confined_andThen confined_throw confined_created
      confined_readFile confined_external confined_writeFileSync confined_unlinkIfExists
      split: exec_result.split)

lemma confined_convertWordToPdfBasic:
  "confined quiet T (convertWordToPdfBasic env inputPath outputPath)"
  unfolding convertWordToPdfBasic_def
  by (auto intro!: confined_tryCatch confined_andThen confined_throw confined_external
      confined_writeFileSync split: sum.split)

lemma confined_convertTextToPdf: "confined quiet T (convertTextToPdf env inputPath outputPath)"
  unfolding convertTextToPdf_def
  by (intro confined_andThen confined_readFile confined_external confined_writeFileSync)

section \<open>The page-snapshot strategy cleans up\<close>

lemma renderPages_effect:
  "renderPages env inputPath name pages imagePaths w = (r, imagePaths', w') \<Longrightarrow>
     \<exists>new. imagePaths' = imagePaths @ new
           \<and> set new \<subseteq> (\<lambda>page. pagePath name page ''png'') ` set pages
           \<and> w' = w\<lparr>files := files w \<union> set new\<rparr>"
proof (induction pages arbitrary: imagePaths w)
  case Nil
  then show ?case by simp
next
  case (Cons page pages)
  show ?case
  proof (cases "pdf2pic env inputPath 180 name ''png'' page")
    case Rendered
    with Cons.prems have "renderPages env inputPath name pages
        (imagePaths @ [pagePath name page ''png'']) (created (pagePath name page ''png'') w)
        = (r, imagePaths', w')" by simp
    from Cons.IH [OF this] obtain new where
      new: "imagePaths' = (imagePaths @ [pagePath name page ''png'']) @ new"
        "set new \<subseteq> (\<lambda>page. pagePath name page ''png'') ` set pages"
        "w' = (created (pagePath name page ''png'') w)
                \<lparr>files := files (created (pagePath name page ''png'') w) \<union> set new\<rparr>"
      by blast
    let ?new = "pagePath name page ''png'' # new"
    from new have "imagePaths' = imagePaths @ ?new"
      and "set ?new \<subseteq> (\<lambda>page. pagePath name page ''png'') ` set (page # pages)"
      and "w' = w\<lparr>files := files w \<union> set ?new\<rparr>"
      by (auto simp: created_def)
    then show ?thesis by blast
  next
    case NoResult
    with Cons.prems show ?thesis by simp
  next
    case (RenderThrows e)
    with Cons.prems show ?thesis by simp
  qed
qed

lemma embedPages_pure: "embedPages env ps w = (r, w') \<Longrightarrow> w' = w"
proof (induction ps)
  case Nil
  then show ?case by (simp add: succeed_def)
next
  case (Cons p ps)
  then show ?case
    by (auto simp: andThen_def readFile_def external_def succeed_def throw_def
        split: if_splits option.splits sum.splits prod.splits)
qed

lemma cleanup_effect:
  "cleanup ps w = (r, w') \<Longrightarrow>
     r = Inr () \<and> attempts w' = attempts w \<and> files w' = files w - set ps
     \<and> (\<exists>us. unlinked w' = unlinked w @ us \<and> set us \<subseteq> set ps)"
proof (induction ps arbitrary: w)
  case Nil
  then show ?case by (simp add: succeed_def)
next
  case (Cons p ps)
  obtain w1 where u: "unlinkIfExists p w = (Inr (), w1)"
    and w1: "attempts w1 = attempts w" "files w1 = files w - {p}"
      "\<exists>us. unlinked w1 = unlinked w @ us \<and> set us \<subseteq> {p}"
    by (cases "p \<in> files w")
      (auto simp: unlinkIfExists_def existsSync_def unlinkSync_def succeed_def)
  with Cons.prems have "cleanup ps w1 = (r, w')" by (simp add: andThen_def)
  from Cons.IH [OF this] have r: "r = Inr ()" and a: "attempts w' = attempts w1"
    and f: "files w' = files w1 - set ps"
    and "\<exists>us. unlinked w' = unlinked w1 @ us \<and> set us \<subseteq> set ps" by blast+
  then obtain vs where vs: "unlinked w' = unlinked w1 @ vs" "set vs \<subseteq> set ps" by blast
  from w1(3) obtain us where us: "unlinked w1 = unlinked w @ us" "set us \<subseteq> {p}" by blast
  from us vs have "unlinked w' = unlinked w @ (us @ vs) \<and> set (us @ vs) \<subseteq> set (p # ps)"
    by auto
  then have "\<exists>xs. unlinked w' = unlinked w @ xs \<and> set xs \<subseteq> set (p # ps)" by blast
  moreover from f w1(2) have "files w' = files w - set (p # ps)" by auto
  ultimately show ?case using r a w1(1) by simp
qed

text \<open>The body of the try block of the snapshot strategy after the page loop.\<close>

lemma snapshot_build_effect:
  assumes "andThen (embedPages env imagePaths)
             (andThen (external (packDocx env SnapshotSite inputPath))
                (writeFileSync env SnapshotSite outputPath)) w1 = (tried, w2)"
  shows "(isl tried \<and> w2 = w1) \<or> (tried = Inr () \<and> w2 = created outputPath w1)"
proof -
  obtain r0 w0 where e: "embedPages env imagePaths w1 = (r0, w0)"
    by (cases "embedPages env imagePaths w1")
  then have "w0 = w1" by (rule embedPages_pure)
  with assms e show ?thesis
    by (auto simp: andThen_def external_def succeed_def throw_def writeFileSync_def
        split: sum.splits option.splits)
qed

lemma snapshot_effect:
  assumes run: "convertPdfToWordSnapshot env inputPath outputPath w = (res, w')"
    and count: "getPdfPageCount env inputPath = Inr n" and pos: "0 < n"
    and pages: "renderPages env inputPath (snapshotName env) [1..<Suc n] [] w
                  = (rendered, imagePaths, w1)"
  shows "files w1 = files w \<union> set imagePaths
         \<and> set imagePaths \<subseteq> range (\<lambda>page. pagePath (snapshotName env) page ''png'')
         \<and> attempts w' = attempts w
         \<and> (\<exists>us. unlinked w' = unlinked w @ us \<and> set us \<subseteq> set imagePaths)
         \<and> (isl rendered \<longrightarrow> isl res)
         \<and> files w' = (if isl res then files w else insert outputPath (files w)) - set imagePaths"
proof -
  from renderPages_effect [OF pages] have
    sub: "set imagePaths \<subseteq> range (\<lambda>page. pagePath (snapshotName env) page ''png'')"
    and w1: "w1 = w\<lparr>files := files w \<union> set imagePaths\<rparr>"
    by auto
  obtain tried w2 where
    body: "(case rendered of
              Inl e \<Rightarrow> (Inl e, w1)
            | Inr u \<Rightarrow>
                andThen (embedPages env imagePaths)
                  (andThen (external (packDocx env SnapshotSite inputPath))
                     (writeFileSync env SnapshotSite outputPath)) w1) = (tried, w2)"
    by (cases "(case rendered of
              Inl e \<Rightarrow> (Inl e, w1)
            | Inr u \<Rightarrow>
                andThen (embedPages env imagePaths)
                  (andThen (external (packDocx env SnapshotSite inputPath))
                     (writeFileSync env SnapshotSite outputPath)) w1)")
  have w2: "(isl tried \<and> w2 = w1) \<or> (tried = Inr () \<and> w2 = created outputPath w1)"
    and rt: "isl rendered \<longrightarrow> isl tried"
  proof -
    show "(isl tried \<and> w2 = w1) \<or> (tried = Inr () \<and> w2 = created outputPath w1)"
    proof (cases rendered)
      case (Inl e)
      with body show ?thesis by auto
    next
      case (Inr u)
      with body show ?thesis by (auto dest: snapshot_build_effect)
    qed
    show "isl rendered \<longrightarrow> isl tried"
      using body by (cases rendered) auto
  qed
  obtain r3 w3 where c: "cleanup imagePaths w2 = (r3, w3)"
    by (cases "cleanup imagePaths w2")
  from cleanup_effect [OF c] have r3: "r3 = Inr ()" and a3: "attempts w3 = attempts w2"
    and f3: "files w3 = files w2 - set imagePaths"
    and u3: "\<exists>us. unlinked w3 = unlinked w2 @ us \<and> set us \<subseteq> set imagePaths"
    by blast+
  from run count pos pages body c r3 have res: "res = tried" and w': "w' = w3"
    by (simp_all add: convertPdfToWordSnapshot_def)
  from w2 w1 have same: "attempts w2 = attempts w" "unlinked w2 = unlinked w"
    by (auto simp: created_def)
  from w2 w1 have "files w2 = (if isl tried then files w else insert outputPath (files w))
      \<union> set imagePaths"
    by (auto simp: created_def)
  with f3 have "files w3 = (if isl tried then files w else insert outputPath (files w))
      - set imagePaths" by auto
  with res w' a3 u3 same rt sub w1 show ?thesis by simp
qed

lemma snapshot_no_pages:
  assumes "convertPdfToWordSnapshot env inputPath outputPath w = (res, w')"
    and "getPdfPageCount env inputPath = Inl e \<or> getPdfPageCount env inputPath = Inr 0"
  shows "isl res \<and> w' = w"
  using assms by (auto simp: convertPdfToWordSnapshot_def)

text \<open>The example configuration, except that rendering the second page yields no result.\<close>

definition secondPageFails :: env where
  "secondPageFails = exampleEnv\<lparr>pdf2pic := \<lambda>p d n f page. if page = 2 then NoResult else Rendered\<rparr>"

text \<open>
  C6. Take any run of the page-snapshot strategy. When the page count is a positive
  \<open>n\<close>, let \<open>imagePaths\<close> be the page images the loop over the pages 1 to \<open>n\<close> has
  created (exactly the files it added). When the strategy returns, with success or with
  any failure, none of them exists any more; a failure of the page loop is a failure of
  the strategy; and the files at the end are those at the start, without the page images,
  together with the output file exactly when the strategy succeeded. When the page count
  cannot be read or is 0, the strategy fails and changes nothing. So a failed run leaves no
  output file behind.
\<close>

theorem snapshot_cleans_up:
  assumes "convertPdfToWordSnapshot env inputPath outputPath w = (res, w')"
  shows "(getPdfPageCount env inputPath = Inr n \<and> 0 < n
          \<and> renderPages env inputPath (snapshotName env) [1..<Suc n] [] w
               = (rendered, imagePaths, w1) \<longrightarrow>
            files w1 = files w \<union> set imagePaths
            \<and> (\<forall>p \<in> set imagePaths. p \<notin> files w')
            \<and> (isl rendered \<longrightarrow> isl res)
            \<and> files w' =
                (if isl res then files w else insert outputPath (files w)) - set imagePaths)
         \<and> ((\<exists>e. getPdfPageCount env inputPath = Inl e) \<or> getPdfPageCount env inputPath = Inr 0
              \<longrightarrow> isl res \<and> w' = w)"
proof -
  have "files w1 = files w \<union> set imagePaths
        \<and> (\<forall>p \<in> set imagePaths. p \<notin> files w')
        \<and> (isl rendered \<longrightarrow> isl res)
        \<and> files w' = (if isl res then files w else insert outputPath (files w)) - set imagePaths"
    if count: "getPdfPageCount env inputPath = Inr n" and pos: "0 < n"
      and pages: "renderPages env inputPath (snapshotName env) [1..<Suc n] [] w
                    = (rendered, imagePaths, w1)"
    using snapshot_effect [OF assms count pos pages] by auto
  moreover have "isl res \<and> w' = w"
    if "(\<exists>e. getPdfPageCount env inputPath = Inl e) \<or> getPdfPageCount env inputPath = Inr 0"
    using that snapshot_no_pages [OF assms] by blast
  ultimately show ?thesis by blast
qed

theorem snapshot_cleans_up_witness:
  "convertPdfToWordSnapshot secondPageFails pdfInput docxOutput exampleWorld
     = (Inl (Error ''Failed to render page 2''),
        exampleWorld\<lparr>unlinked := [(ConvertedDir, ''pdf-snapshot-43.1.png'')]\<rparr>)
   \<and> getPdfPageCount secondPageFails pdfInput = Inr 2
   \<and> renderPages secondPageFails pdfInput (snapshotName secondPageFails) [1..<Suc 2] []
        exampleWorld
       = (Inl (Error ''Failed to render page 2''), [(ConvertedDir, ''pdf-snapshot-43.1.png'')],
          exampleWorld\<lparr>files := insert (ConvertedDir, ''pdf-snapshot-43.1.png'') (files exampleWorld)\<rparr>)
   \<and> (ConvertedDir, ''pdf-snapshot-43.1.png'')
        \<notin> files (exampleWorld\<lparr>unlinked := [(ConvertedDir, ''pdf-snapshot-43.1.png'')]\<rparr>)
   \<and> docxOutput \<notin> files (exampleWorld\<lparr>unlinked := [(ConvertedDir, ''pdf-snapshot-43.1.png'')]\<rparr>)"
proof -
  let ?p1 = "(ConvertedDir, ''pdf-snapshot-43.1.png'')"
  let ?w' = "exampleWorld\<lparr>unlinked := [?p1]\<rparr>"
  let ?w1 = "exampleWorld\<lparr>files := insert ?p1 (files exampleWorld)\<rparr>"
  have run: "convertPdfToWordSnapshot secondPageFails pdfInput docxOutput exampleWorld
               = (Inl (Error ''Failed to render page 2''), ?w')"
    by code_simp
  have cnt: "getPdfPageCount secondPageFails pdfInput = Inr 2" by code_simp
  have rp: "renderPages secondPageFails pdfInput (snapshotName secondPageFails) [1..<Suc 2] []
              exampleWorld = (Inl (Error ''Failed to render page 2''), [?p1], ?w1)"
    by code_simp
  have out: "docxOutput \<notin> files exampleWorld" by code_simp
  from snapshot_cleans_up [OF run, of 2 "Inl (Error ''Failed to render page 2'')" "[?p1]" ?w1]
    cnt rp
  have "(\<forall>p \<in> set [?p1]. p \<notin> files ?w')
        \<and> files ?w' = (if isl (Inl (Error ''Failed to render page 2'') :: exn + unit)
                        then files exampleWorld else insert docxOutput (files exampleWorld))
                       - set [?p1]"
    by simp
  with out have "?p1 \<notin> files ?w' \<and> docxOutput \<notin> files ?w'"
    by simp
  with run cnt rp show ?thesis by blast
qed

section \<open>The strategy chains\<close>

lemma confined_convertPdfToWordSnapshot:
  assumes "range (\<lambda>page. pagePath (snapshotName env) page ''png'') \<subseteq> T"
  shows "confined quiet T (convertPdfToWordSnapshot env inputPath outputPath)"
  unfolding confined_def
proof (intro allI impI)
  fix w res w'
  assume run: "convertPdfToWordSnapshot env inputPath outputPath w = (res, w')"
  show "touches quiet T w w'"
  proof (cases "getPdfPageCount env inputPath")
    case (Inl e)
    with snapshot_no_pages [OF run] show ?thesis by (simp add: touches_refl)
  next
    case (Inr n)
    show ?thesis
    proof (cases "n = 0")
      case True
      with Inr snapshot_no_pages [OF run] show ?thesis by (simp add: touches_refl)
    next
      case False
      obtain rendered imagePaths w1 where
        pages: "renderPages env inputPath (snapshotName env) [1..<Suc n] [] w
                  = (rendered, imagePaths, w1)"
        by (cases "renderPages env inputPath (snapshotName env) [1..<Suc n] [] w")
      from False have "0 < n" by simp
      from snapshot_effect [OF run Inr this pages] assms
      have "set imagePaths \<subseteq> T" and "attempts w' = attempts w"
        and "\<exists>us. unlinked w' = unlinked w @ us \<and> set us \<subseteq> set imagePaths"
        and "files w' = (if isl res then files w else insert outputPath (files w))
               - set imagePaths"
        by auto
      then show ?thesis by (auto simp: touches_def)
    qed
  qed
qed

lemma quiet_attempts: "confined True T m \<Longrightarrow> m w = (r, w') \<Longrightarrow> attempts w' = attempts w"
  by (auto simp: confined_def touches_def)

lemma attempt_quiet:
  assumes "confined True T m" and "attempt s m w = (r, w')"
  shows "attempts w' = attempts w @ [(s, \<not> isl r)] \<and> (\<exists>w1. m w = (r, w1))"
proof -
  obtain r1 w1 where m: "m w = (r1, w1)" by (cases "m w")
  with assms(2) have "r = r1" and "w' = w1\<lparr>attempts := attempts w1 @ [(s, \<not> isl r1)]\<rparr>"
    by (auto simp: attempt_def)
  moreover from assms(1) m have "attempts w1 = attempts w" by (rule quiet_attempts)
  ultimately show ?thesis using m by auto
qed

lemma unlinkIfExists_succeeds: "unlinkIfExists p w = (r, w') \<Longrightarrow> r = Inr ()"
  by (auto simp: unlinkIfExists_def existsSync_def unlinkSync_def succeed_def split: if_splits)

lemma convertPdfToWordBasic_failure:
  assumes "convertPdfToWordBasic env inputPath outputPath w = (Inl e, w')"
  shows "e = Error ''Failed to convert PDF to WORD. The PDF may not contain extractable text.''"
proof -
  let ?tmp = "(fst inputPath, snd inputPath @ ''.txt'')"
  let ?body = "andThen (case pdftotext env True inputPath of
                       ExecOk \<Rightarrow> (\<lambda>w. (Inr (), created ?tmp w))
                     | ExecFailed syntaxError \<Rightarrow> throw execError)
           (andThen (readFile ?tmp)
           (andThen (external (packDocx env PdfToWordBasicSite inputPath))
           (andThen (writeFileSync env PdfToWordBasicSite outputPath)
                    (unlinkIfExists ?tmp))))"
  obtain r1 w1 where b: "?body w = (r1, w1)" by (cases "?body w")
  show ?thesis
  proof (cases r1)
    case (Inl e1)
    obtain r2 w2 where u: "unlinkIfExists ?tmp w1 = (r2, w2)" by (cases "unlinkIfExists ?tmp w1")
    then have "r2 = Inr ()" by (rule unlinkIfExists_succeeds)
    with assms b Inl u show ?thesis
      by (simp add: convertPdfToWordBasic_def Let_def tryCatch_def andThen_def throw_def)
  next
    case (Inr u)
    with assms b show ?thesis
      by (simp add: convertPdfToWordBasic_def Let_def tryCatch_def)
  qed
qed

lemma convertWordToPdfBasic_failure:
  assumes "convertWordToPdfBasic env inputPath outputPath w = (Inl e, w')"
  shows "e = Error ''Failed to convert WORD to PDF. The document may be corrupted.''"
proof -
  let ?body = "(case mammoth env inputPath of
          Inl e \<Rightarrow> throw e
        | Inr text \<Rightarrow>
            if text = [] \<or> length (trim text) = 0
            then throw (Error ''No text content found in the document'')
            else andThen (external (pdfWordLayout env (split_on LF (sanitizeTextForPdf text))))
                   (writeFileSync env WordToPdfBasicSite outputPath))"
  obtain r1 w1 where b: "?body w = (r1, w1)" by (cases "?body w")
  with assms show ?thesis
    by (cases r1) (simp_all add: convertWordToPdfBasic_def tryCatch_def throw_def)
qed

text \<open>The local part of the PDF-to-Word chain.\<close>

lemma pdf_to_word_local:
  assumes "tryFirst (attempt PdfToWordSnapshot (convertPdfToWordSnapshot env inputPath outputPath))
             (attempt PdfToWordBasic (convertPdfToWordBasic env inputPath outputPath)) w = (res, w')"
  shows "(attempts w' = attempts w @ [(PdfToWordSnapshot, True)] \<and> res = Inr ())
         \<or> (attempts w' = attempts w @ [(PdfToWordSnapshot, False), (PdfToWordBasic, \<not> isl res)]
             \<and> (\<exists>w1 w2. convertPdfToWordBasic env inputPath outputPath w1 = (res, w2)))"
proof -
  let ?S = "attempt PdfToWordSnapshot (convertPdfToWordSnapshot env inputPath outputPath)"
  obtain r1 w1 where s: "?S w = (r1, w1)" by (cases "?S w")
  have cs: "confined True UNIV (convertPdfToWordSnapshot env inputPath outputPath)"
    by (rule confined_convertPdfToWordSnapshot) simp
  have cb: "confined True UNIV (convertPdfToWordBasic env inputPath outputPath)"
    by (rule confined_convertPdfToWordBasic) simp
  from attempt_quiet [OF cs s] have a1: "attempts w1 = attempts w @ [(PdfToWordSnapshot, \<not> isl r1)]"
    by simp
  show ?thesis
  proof (cases r1)
    case (Inr u)
    with assms s have "res = Inr ()" "w' = w1" by (simp_all add: tryFirst_def tryCatch_def)
    with a1 Inr show ?thesis by simp
  next
    case (Inl e)
    with assms s have b: "attempt PdfToWordBasic (convertPdfToWordBasic env inputPath outputPath) w1
        = (res, w')" by (simp add: tryFirst_def tryCatch_def)
    from attempt_quiet [OF cb b] a1 Inl show ?thesis by auto
  qed
qed

lemma pdf_to_word_cases:
  assumes "convertPdfToWord env inputPath outputPath w = (res, w')"
  shows "\<exists>tried. attempts w' = attempts w @ tried \<and>
     (if cloudConvert env
      then (tried = [(Remote, True)] \<and> res = Inr ())
           \<or> (tried = [(Remote, False), (PdfToWordSnapshot, True)] \<and> res = Inr ())
           \<or> (tried = [(Remote, False), (PdfToWordSnapshot, False), (PdfToWordBasic, \<not> isl res)]
               \<and> (\<exists>w1 w2. convertPdfToWordBasic env inputPath outputPath w1 = (res, w2)))
      else (tried = [(PdfToWordSnapshot, True)] \<and> res = Inr ())
           \<or> (tried = [(PdfToWordSnapshot, False), (PdfToWordBasic, \<not> isl res)]
               \<and> (\<exists>w1 w2. convertPdfToWordBasic env inputPath outputPath w1 = (res, w2))))
     \<and> (cloudConvert env \<longrightarrow>
          hd tried = (Remote, \<not> isl (fst (convertWithCloudConvert env inputPath outputPath
                                            ''pdf'' ''docx'' w))))"
proof (cases "cloudConvert env")
  case False
  with assms have "tryFirst (attempt PdfToWordSnapshot (convertPdfToWordSnapshot env inputPath outputPath))
             (attempt PdfToWordBasic (convertPdfToWordBasic env inputPath outputPath)) w = (res, w')"
    by (simp add: convertPdfToWord_def Let_def)
  from pdf_to_word_local [OF this] False show ?thesis by auto
next
  case True
  let ?R = "attempt Remote (convertWithCloudConvert env inputPath outputPath ''pdf'' ''docx'')"
  obtain r1 w1 where r: "?R w = (r1, w1)" by (cases "?R w")
  have cr: "confined True UNIV (convertWithCloudConvert env inputPath outputPath ''pdf'' ''docx'')"
    by (rule confined_convertWithCloudConvert)
  from attempt_quiet [OF cr r] obtain w0 where
    a1: "attempts w1 = attempts w @ [(Remote, \<not> isl r1)]"
    and r0: "convertWithCloudConvert env inputPath outputPath ''pdf'' ''docx'' w = (r1, w0)"
    by blast
  show ?thesis
  proof (cases r1)
    case (Inr u)
    with assms True r have "res = Inr ()" "w' = w1"
      by (simp_all add: convertPdfToWord_def Let_def tryFirst_def tryCatch_def)
    with a1 Inr True r0 show ?thesis by simp
  next
    case (Inl e)
    with assms True r have "tryFirst (attempt PdfToWordSnapshot (convertPdfToWordSnapshot env inputPath outputPath))
             (attempt PdfToWordBasic (convertPdfToWordBasic env inputPath outputPath)) w1 = (res, w')"
      by (simp add: convertPdfToWord_def Let_def tryFirst_def tryCatch_def)
    from pdf_to_word_local [OF this] a1 Inl True r0 show ?thesis by auto
  qed
qed

lemma word_to_pdf_cases:
  assumes "convertWordToPdf env inputPath outputPath mimeType w = (res, w')"
  shows "\<exists>tried. attempts w' = attempts w @ tried \<and>
     ((tried = [(Remote, True)] \<and> res = Inr () \<and> cloudConvert env)
      \<or> (tried = [(Remote, False)] \<and> res = Inl (Error docMessage) \<and> cloudConvert env
          \<and> isOldDoc inputPath mimeType)
      \<or> (tried = [(Remote, False), (WordToPdfBasic, \<not> isl res)] \<and> cloudConvert env
          \<and> \<not> isOldDoc inputPath mimeType
          \<and> (\<exists>w1 w2. convertWordToPdfBasic env inputPath outputPath w1 = (res, w2)))
      \<or> (tried = [] \<and> res = Inl (Error docMessage) \<and> \<not> cloudConvert env
          \<and> isOldDoc inputPath mimeType)
      \<or> (tried = [(WordToPdfBasic, \<not> isl res)] \<and> \<not> cloudConvert env
          \<and> \<not> isOldDoc inputPath mimeType
          \<and> (\<exists>w1 w2. convertWordToPdfBasic env inputPath outputPath w1 = (res, w2))))"
proof -
  let ?local = "if isOldDoc inputPath mimeType then throw (Error docMessage)
             else attempt WordToPdfBasic (convertWordToPdfBasic env inputPath outputPath)"
  have cb: "confined True UNIV (convertWordToPdfBasic env inputPath outputPath)"
    by (rule confined_convertWordToPdfBasic)
  have loc: "(attempts v' = attempts v \<and> r = Inl (Error docMessage) \<and> isOldDoc inputPath mimeType)
      \<or> (attempts v' = attempts v @ [(WordToPdfBasic, \<not> isl r)] \<and> \<not> isOldDoc inputPath mimeType
          \<and> (\<exists>w1 w2. convertWordToPdfBasic env inputPath outputPath w1 = (r, w2)))"
    if "?local v = (r, v')" for v r v'
  proof (cases "isOldDoc inputPath mimeType")
    case True
    with that show ?thesis by (simp add: throw_def)
  next
    case False
    with that have "attempt WordToPdfBasic (convertWordToPdfBasic env inputPath outputPath) v
      = (r, v')" by simp
    from attempt_quiet [OF cb this] False show ?thesis by auto
  qed
  show ?thesis
  proof (cases "cloudConvert env")
    case False
    with assms have "?local w = (res, w')" by (simp add: convertWordToPdf_def Let_def)
    from loc [OF this] False show ?thesis by auto
  next
    case True
    let ?fmt = "if isOldDoc inputPath mimeType then ''doc'' else ''docx''"
    let ?R = "attempt Remote (convertWithCloudConvert env inputPath outputPath ?fmt ''pdf'')"
    obtain r1 w1 where r: "?R w = (r1, w1)" by (cases "?R w")
    have cr: "confined True UNIV (convertWithCloudConvert env inputPath outputPath ?fmt ''pdf'')"
      by (rule confined_convertWithCloudConvert)
    from attempt_quiet [OF cr r] have a1: "attempts w1 = attempts w @ [(Remote, \<not> isl r1)]"
      by simp
    show ?thesis
    proof (cases r1)
      case (Inr u)
      with assms True r have "res = Inr ()" "w' = w1"
        by (simp_all add: convertWordToPdf_def Let_def tryFirst_def tryCatch_def)
      with a1 Inr True show ?thesis by simp
    next
      case (Inl e)
      with assms True r have "?local w1 = (res, w')"
        by (simp add: convertWordToPdf_def Let_def tryFirst_def tryCatch_def)
      from loc [OF this] a1 Inl True show ?thesis by auto
    qed
  qed
qed



section \<open>The outcomes of the request handler\<close>

text \<open>The world after \<open>fs.unlinkSync(p)\<close> on a file that exists.\<close>

definition removed :: "path \<Rightarrow> world \<Rightarrow> world" where
  "removed p w = w\<lparr>files := files w - {p}, unlinked := unlinked w @ [p]\<rparr>"

lemma unlinkSync_cases:
  "unlinkSync p w = (if p \<in> files w then (Inr (), removed p w) else (Inl ENOENT, w))"
  by (simp add: unlinkSync_def removed_def)

lemma unlinkIfExists_cases:
  "unlinkIfExists p w = (Inr (), if p \<in> files w then removed p w else w)"
  by (simp add: unlinkIfExists_def existsSync_def unlinkSync_cases succeed_def)

lemma handler_invalid_target:
  assumes "safeParse raw = None"
  shows "convertHandler env (Some f) raw w =
           (if filePath f \<in> files w
            then (failure 400 invalidTargetMessage, removed (filePath f) w)
            else (failure 500 (errorMessage ENOENT), w))"
  using assms
  by (simp add: convertHandler_def tryBlock_def andThen_def unlinkSync_cases catchBlock_def
      unlinkIfExists_cases)

lemma handler_unsupported:
  assumes "safeParse raw = Some tf" and "dispatch env f tf = None"
  shows "convertHandler env (Some f) raw w =
           (if filePath f \<in> files w
            then (unsupported f tf, removed (filePath f) w)
            else (failure 500 (errorMessage ENOENT), w))"
  using assms
  by (simp add: convertHandler_def tryBlock_def andThen_def unlinkSync_cases catchBlock_def
      unlinkIfExists_cases)

lemma handler_conversion_failed:
  assumes "safeParse raw = Some tf" and "dispatch env f tf = Some convert"
    and "convert w = (Inl e, w1)"
  shows "convertHandler env (Some f) raw w =
           (failure 500 (errorMessage e),
            if filePath f \<in> files w1 then removed (filePath f) w1 else w1)"
  using assms
  by (simp add: convertHandler_def tryBlock_def andThen_def catchBlock_def unlinkIfExists_cases)

lemma handler_conversion_succeeded:
  assumes "safeParse raw = Some tf" and "dispatch env f tf = Some convert"
    and "convert w = (Inr (), w1)"
  shows "convertHandler env (Some f) raw w =
           (if filePath f \<in> files w1
            then (converted env f tf, removed (filePath f) w1)
            else (failure 500 (errorMessage ENOENT), w1))"
  using assms
  by (simp add: convertHandler_def tryBlock_def andThen_def unlinkSync_cases catchBlock_def
      unlinkIfExists_cases)

lemma errorMessage_nonempty: "errorMessage e \<noteq> []"
  by (cases e) (simp_all add: errorMessage_def defaultMessage_def)

lemma errorMessage_Error: "m \<noteq> [] \<Longrightarrow> errorMessage (Error m) = m"
  by (simp add: errorMessage_def)

lemma invalidTargetMessage_nonempty: "invalidTargetMessage \<noteq> []"
  by (simp add: invalidTargetMessage_def)

lemma unsupportedMessage_nonempty: "unsupportedMessage m tf \<noteq> []"
  by (simp add: unsupportedMessage_def)

lemma outputFilename_nonempty: "outputFilename env f tf \<noteq> []"
  by (simp add: outputFilename_def)

lemma pdf_not_image: "isPdfMime m \<Longrightarrow> \<not> isImageMime m"
  by (simp add: isPdfMime_def isImageMime_def startsWith_def)

lemma word_not_image: "isWordMime m \<Longrightarrow> \<not> isImageMime m"
  by (auto simp: isWordMime_def isImageMime_def startsWith_def)

lemma word_not_pdf: "isWordMime m \<Longrightarrow> \<not> isPdfMime m"
  by (auto simp: isWordMime_def isPdfMime_def)

lemma dispatch_pdf_to_word:
  assumes "isPdfMime (mimetype f)"
  shows "dispatch env f WORD = Some (convertPdfToWord env (filePath f) (outputPathOf env f WORD))"
  using assms pdf_not_image [OF assms]
  by (simp add: dispatch_def Let_def IMAGE_FORMATS_def)

lemma dispatch_word_to_pdf:
  assumes "isWordMime (mimetype f)"
  shows "dispatch env f PDF =
           Some (convertWordToPdf env (filePath f) (outputPathOf env f PDF) (mimetype f))"
  using assms word_not_image [OF assms] word_not_pdf [OF assms]
  by (simp add: dispatch_def Let_def IMAGE_FORMATS_def)

lemma removed_attempts: "attempts (removed p w) = attempts w"
  by (simp add: removed_def)

text \<open>
  C1. For every uploaded file, every requested target format and every behaviour of the
  external collaborators, the response of the conversion endpoint either has
  \<open>success = true\<close>, a non-empty \<open>filename\<close> and no \<open>error\<close>, or has \<open>success = false\<close>,
  no \<open>filename\<close> and a non-empty \<open>error\<close>. It is a failure for an invalid target, for an
  unsupported pair and when the conversion throws (the error is then the thrown message,
  or the default message when that is absent or empty); it is a success, with the output
  file name, when the conversion returns and the upload is still there to delete.
\<close>

theorem handler_outcome_is_unambiguous:
  assumes "convertHandler env (Some f) raw w = (r, w')"
  shows "((success r \<and> (\<exists>n. filename r = Some n \<and> n \<noteq> []) \<and> error r = None)
          \<or> (\<not> success r \<and> filename r = None \<and> (\<exists>m. error r = Some m \<and> m \<noteq> [])))
         \<and> (safeParse raw = None \<longrightarrow> \<not> success r)
         \<and> (safeParse raw = Some tf \<and> dispatch env f tf = None \<longrightarrow> \<not> success r)
         \<and> (safeParse raw = Some tf \<and> dispatch env f tf = Some convert
              \<and> convert w = (Inl e, w1) \<longrightarrow> \<not> success r \<and> error r = Some (errorMessage e))
         \<and> (safeParse raw = Some tf \<and> dispatch env f tf = Some convert
              \<and> convert w = (Inr (), w1) \<and> filePath f \<in> files w1 \<longrightarrow>
                success r \<and> filename r = Some (outputFilename env f tf))"
proof -
  have shape_failure: "\<not> success (failure c m) \<and> filename (failure c m) = None
      \<and> error (failure c m) = Some m" for c m
    by (simp add: failure_def)
  have shape_unsupported: "\<not> success (unsupported f t) \<and> filename (unsupported f t) = None
      \<and> error (unsupported f t) = Some (unsupportedMessage (mimetype f) t)" for t
    by (simp add: unsupported_def)
  have shape_converted: "success (converted env f t)
      \<and> filename (converted env f t) = Some (outputFilename env f t)
      \<and> error (converted env f t) = None" for t
    by (simp add: converted_def)
  have invalid: "\<not> success r \<and> filename r = None \<and> (\<exists>m. error r = Some m \<and> m \<noteq> [])"
    if p: "safeParse raw = None"
  proof -
    from handler_invalid_target [OF p, of env f w] assms
    have "r = failure 400 invalidTargetMessage \<or> r = failure 500 (errorMessage ENOENT)"
      by (auto split: if_splits)
    with shape_failure invalidTargetMessage_nonempty errorMessage_nonempty show ?thesis
      by auto
  qed
  have none: "\<not> success r \<and> filename r = None \<and> (\<exists>m. error r = Some m \<and> m \<noteq> [])"
    if p: "safeParse raw = Some t" and d: "dispatch env f t = None" for t
  proof -
    from handler_unsupported [OF p d, of w] assms
    have "r = unsupported f t \<or> r = failure 500 (errorMessage ENOENT)"
      by (auto split: if_splits)
    with shape_failure shape_unsupported unsupportedMessage_nonempty errorMessage_nonempty
    show ?thesis by auto
  qed
  have failed: "\<not> success r \<and> filename r = None \<and> error r = Some (errorMessage x)"
    if p: "safeParse raw = Some t" and d: "dispatch env f t = Some c" and c: "c w = (Inl x, v)"
    for t c x v
  proof -
    from handler_conversion_failed [OF p d c] assms
    have "r = failure 500 (errorMessage x)" by simp
    with shape_failure show ?thesis by simp
  qed
  have succeeded: "(success r \<and> filename r = Some (outputFilename env f t) \<and> error r = None
        \<and> filePath f \<in> files v)
      \<or> (\<not> success r \<and> filename r = None \<and> error r = Some (errorMessage ENOENT)
        \<and> filePath f \<notin> files v)"
    if p: "safeParse raw = Some t" and d: "dispatch env f t = Some c" and c: "c w = (Inr (), v)"
    for t c v
  proof -
    from handler_conversion_succeeded [OF p d c] assms
    have "(r = converted env f t \<and> filePath f \<in> files v)
        \<or> (r = failure 500 (errorMessage ENOENT) \<and> filePath f \<notin> files v)"
      by (auto split: if_splits)
    with shape_failure shape_converted show ?thesis by auto
  qed
  have shape: "(success r \<and> (\<exists>n. filename r = Some n \<and> n \<noteq> []) \<and> error r = None)
          \<or> (\<not> success r \<and> filename r = None \<and> (\<exists>m. error r = Some m \<and> m \<noteq> []))"
  proof (cases "safeParse raw")
    case None
    with invalid show ?thesis by blast
  next
    case (Some t)
    show ?thesis
    proof (cases "dispatch env f t")
      case None
      with Some none show ?thesis by blast
    next
      case (Some c)
      obtain x v where c: "c w = (x, v)" by (cases "c w")
      show ?thesis
      proof (cases x)
        case (Inl a)
        with failed [OF \<open>safeParse raw = Some t\<close> Some] c errorMessage_nonempty
        show ?thesis by auto
      next
        case (Inr u)
        with succeeded [OF \<open>safeParse raw = Some t\<close> Some] c errorMessage_nonempty
          outputFilename_nonempty
        show ?thesis by auto
      qed
    qed
  qed
  from shape invalid none [of tf] failed [of tf convert e w1] succeeded [of tf convert w1]
  show ?thesis by blast
qed

theorem handler_outcome_is_unambiguous_witness:
  "safeParse (Some ''PDF'') = Some PDF
   \<and> dispatch exampleEnv (exampleUpload docxType) PDF
       = Some (convertWordToPdf exampleEnv (filePath (exampleUpload docxType))
                 (outputPathOf exampleEnv (exampleUpload docxType) PDF) docxType)
   \<and> convertWordToPdf exampleEnv (filePath (exampleUpload docxType))
        (outputPathOf exampleEnv (exampleUpload docxType) PDF) docxType exampleWorld
       = (Inl (Error ''Failed to convert WORD to PDF. The document may be corrupted.''),
          exampleWorld\<lparr>attempts := [(WordToPdfBasic, False)]\<rparr>)
   \<and> \<not> success (fst (convertHandler exampleEnv (Some (exampleUpload docxType)) (Some ''PDF'') exampleWorld))
   \<and> error (fst (convertHandler exampleEnv (Some (exampleUpload docxType)) (Some ''PDF'') exampleWorld))
       = Some ''Failed to convert WORD to PDF. The document may be corrupted.''
   \<and> safeParse (Some ''WORD'') = Some WORD
   \<and> success (fst (convertHandler exampleEnv (Some (exampleUpload docxType)) (Some ''WORD'') exampleWorld))
   \<and> filename (fst (convertHandler exampleEnv (Some (exampleUpload docxType)) (Some ''WORD'') exampleWorld))
       = Some ''a-converted.docx''
   \<and> safeParse (Some ''GIF'') = None
   \<and> \<not> success (fst (convertHandler exampleEnv (Some (exampleUpload docxType)) (Some ''GIF'') exampleWorld))
   \<and> safeParse (Some ''PNG'') = Some PNG
   \<and> dispatch exampleEnv (exampleUpload docxType) PNG = None
   \<and> \<not> success (fst (convertHandler exampleEnv (Some (exampleUpload docxType)) (Some ''PNG'') exampleWorld))"
proof -
  let ?f = "exampleUpload docxType"
  let ?msg = "''Failed to convert WORD to PDF. The document may be corrupted.''"
  let ?c = "convertWordToPdf exampleEnv (filePath ?f) (outputPathOf exampleEnv ?f PDF) docxType"
  let ?w1 = "exampleWorld\<lparr>attempts := [(WordToPdfBasic, False)]\<rparr>"
  obtain r1 v1 where h1: "convertHandler exampleEnv (Some ?f) (Some ''PDF'') exampleWorld = (r1, v1)"
    by (cases "convertHandler exampleEnv (Some ?f) (Some ''PDF'') exampleWorld")
  obtain r2 v2 where h2: "convertHandler exampleEnv (Some ?f) (Some ''WORD'') exampleWorld = (r2, v2)"
    by (cases "convertHandler exampleEnv (Some ?f) (Some ''WORD'') exampleWorld")
  obtain r3 v3 where h3: "convertHandler exampleEnv (Some ?f) (Some ''GIF'') exampleWorld = (r3, v3)"
    by (cases "convertHandler exampleEnv (Some ?f) (Some ''GIF'') exampleWorld")
  obtain r4 v4 where h4: "convertHandler exampleEnv (Some ?f) (Some ''PNG'') exampleWorld = (r4, v4)"
    by (cases "convertHandler exampleEnv (Some ?f) (Some ''PNG'') exampleWorld")
  have p1: "safeParse (Some ''PDF'') = Some PDF" by code_simp
  have k1: "isWordMime (mimetype ?f)" by code_simp
  have t1: "mimetype ?f = docxType" by (simp add: exampleUpload_def)
  from dispatch_word_to_pdf [OF k1, of exampleEnv] t1
  have d1: "dispatch exampleEnv ?f PDF = Some ?c" by simp
  have c1: "?c exampleWorld = (Inl (Error ?msg), ?w1)" by code_simp
  have m1: "errorMessage (Error ?msg) = ?msg" by (rule errorMessage_Error) simp
  have p2: "safeParse (Some ''WORD'') = Some WORD" by code_simp
  have s2: "success (fst (convertHandler exampleEnv (Some ?f) (Some ''WORD'') exampleWorld))"
    by code_simp
  have f2: "filename (fst (convertHandler exampleEnv (Some ?f) (Some ''WORD'') exampleWorld))
       = Some ''a-converted.docx''" by code_simp
  have p3: "safeParse (Some ''GIF'') = None" by code_simp
  have p4: "safeParse (Some ''PNG'') = Some PNG" by code_simp
  have d4: "dispatch exampleEnv ?f PNG = None"
    by (simp add: dispatch_def Let_def exampleUpload_def docxType_def isImageMime_def
        startsWith_def isPdfMime_def isTextMime_def)
  from handler_outcome_is_unambiguous [OF h1, of PDF ?c "Error ?msg" ?w1] p1 d1 c1 m1
  have a: "\<not> success r1 \<and> error r1 = Some ?msg" by simp
  from handler_outcome_is_unambiguous [OF h3] p3 have b: "\<not> success r3" by blast
  from handler_outcome_is_unambiguous [OF h4, of PNG] p4 d4 have c: "\<not> success r4" by blast
  from a b c h1 h3 h4 p1 d1 c1 p2 s2 f2 p3 p4 d4 show ?thesis by simp
qed

section \<open>The failure a chain reports\<close>

definition pdfToWordFailed :: string where
  "pdfToWordFailed = ''Failed to convert PDF to WORD. The PDF may not contain extractable text.''"

definition wordToPdfFailed :: string where
  "wordToPdfFailed = ''Failed to convert WORD to PDF. The document may be corrupted.''"

text \<open>
  The example configuration with a credential, where the remote job fails; the raw text of
  the example Word document is blank, so the local strategy fails as well.
\<close>

definition remoteFails :: env where
  "remoteFails = exampleEnv\<lparr>cloudConvert := True, remoteJob := \<lambda>p a b. Some (Error ''Bad Gateway'')\<rparr>"

lemma handler_attempts:
  assumes "safeParse raw = Some tf" and "dispatch env f tf = Some convert"
    and "convert w = (res, w1)" and "convertHandler env (Some f) raw w = (r, w')"
  shows "attempts w' = attempts w1
         \<and> (\<forall>e. res = Inl e \<longrightarrow> r = failure 500 (errorMessage e))"
proof (cases res)
  case (Inl e)
  with handler_conversion_failed [OF assms(1,2), of w e w1] assms(3,4) show ?thesis
    by (auto simp: removed_attempts split: if_splits)
next
  case (Inr u)
  with handler_conversion_succeeded [OF assms(1,2), of w w1] assms(3,4) show ?thesis
    by (auto simp: removed_attempts split: if_splits)
qed

text \<open>
  C3. Take a PDF-to-WORD or a Word-to-PDF request for which more than one strategy was
  tried and every strategy tried failed. Then the strategy tried last is the local text
  extraction of that chain, and the response is exactly the failure response with status
  500 whose error is the message of the error that strategy threw; nothing of the earlier
  failures is in it.
\<close>

theorem last_failure_is_surfaced:
  assumes parse: "safeParse raw = Some tf"
    and pair: "(isPdfMime (mimetype f) \<and> tf = WORD) \<or> (isWordMime (mimetype f) \<and> tf = PDF)"
    and run: "convertHandler env (Some f) raw w = (r, w')"
    and tried: "attempts w' = attempts w @ tried"
    and more: "1 < length tried"
    and failed: "\<forall>a \<in> set tried. \<not> snd a"
  shows "\<exists>e w1 w2.
           (if tf = WORD
            then fst (last tried) = PdfToWordBasic
                 \<and> convertPdfToWordBasic env (filePath f) (outputPathOf env f tf) w1 = (Inl e, w2)
                 \<and> messageText e = pdfToWordFailed
            else fst (last tried) = WordToPdfBasic
                 \<and> convertWordToPdfBasic env (filePath f) (outputPathOf env f tf) w1 = (Inl e, w2)
                 \<and> messageText e = wordToPdfFailed)
           \<and> r = failure 500 (messageText e)"
  using pair
proof
  assume a: "isPdfMime (mimetype f) \<and> tf = WORD"
  let ?c = "convertPdfToWord env (filePath f) (outputPathOf env f WORD)"
  from a have d: "dispatch env f tf = Some ?c" by (simp add: dispatch_pdf_to_word)
  obtain res v where c: "?c w = (res, v)" by (cases "?c w")
  from handler_attempts [OF parse d c run] have av: "attempts w' = attempts v"
    and rf: "\<forall>e. res = Inl e \<longrightarrow> r = failure 500 (errorMessage e)" by blast+
  from pdf_to_word_cases [OF c] av tried obtain
    cases: "if cloudConvert env
      then (tried = [(Remote, True)] \<and> res = Inr ())
           \<or> (tried = [(Remote, False), (PdfToWordSnapshot, True)] \<and> res = Inr ())
           \<or> (tried = [(Remote, False), (PdfToWordSnapshot, False), (PdfToWordBasic, \<not> isl res)]
               \<and> (\<exists>w1 w2. convertPdfToWordBasic env (filePath f) (outputPathOf env f WORD) w1
                     = (res, w2)))
      else (tried = [(PdfToWordSnapshot, True)] \<and> res = Inr ())
           \<or> (tried = [(PdfToWordSnapshot, False), (PdfToWordBasic, \<not> isl res)]
               \<and> (\<exists>w1 w2. convertPdfToWordBasic env (filePath f) (outputPathOf env f WORD) w1
                     = (res, w2)))"
    by auto
  from cases failed have last: "fst (last tried) = PdfToWordBasic" and "isl res"
    and "\<exists>w1 w2. convertPdfToWordBasic env (filePath f) (outputPathOf env f WORD) w1 = (res, w2)"
    by (auto split: if_splits)
  then obtain e w1 w2 where e: "res = Inl e"
    and b: "convertPdfToWordBasic env (filePath f) (outputPathOf env f WORD) w1 = (Inl e, w2)"
    by (cases res) auto
  from convertPdfToWordBasic_failure [OF b] have m: "e = Error pdfToWordFailed"
    by (simp add: pdfToWordFailed_def)
  then have "errorMessage e = messageText e" "messageText e = pdfToWordFailed"
    by (simp_all add: errorMessage_def pdfToWordFailed_def)
  with rf e a last b show ?thesis
    by (intro exI [of _ e] exI [of _ w1] exI [of _ w2]) simp
next
  assume a: "isWordMime (mimetype f) \<and> tf = PDF"
  let ?c = "convertWordToPdf env (filePath f) (outputPathOf env f PDF) (mimetype f)"
  from a have d: "dispatch env f tf = Some ?c" by (simp add: dispatch_word_to_pdf)
  obtain res v where c: "?c w = (res, v)" by (cases "?c w")
  from handler_attempts [OF parse d c run] have av: "attempts w' = attempts v"
    and rf: "\<forall>e. res = Inl e \<longrightarrow> r = failure 500 (errorMessage e)" by blast+
  from word_to_pdf_cases [OF c] av tried more failed
  have last: "fst (last tried) = WordToPdfBasic" and "isl res"
    and "\<exists>w1 w2. convertWordToPdfBasic env (filePath f) (outputPathOf env f PDF) w1 = (res, w2)"
    by auto
  then obtain e w1 w2 where e: "res = Inl e"
    and b: "convertWordToPdfBasic env (filePath f) (outputPathOf env f PDF) w1 = (Inl e, w2)"
    by (cases res) auto
  from convertWordToPdfBasic_failure [OF b] have m: "e = Error wordToPdfFailed"
    by (simp add: wordToPdfFailed_def)
  then have "errorMessage e = messageText e" "messageText e = wordToPdfFailed"
    by (simp_all add: errorMessage_def wordToPdfFailed_def)
  with rf e a last b show ?thesis
    by (intro exI [of _ e] exI [of _ w1] exI [of _ w2]) simp
qed

theorem last_failure_is_surfaced_witness:
  "safeParse (Some ''PDF'') = Some PDF
   \<and> isWordMime (mimetype (exampleUpload docxType))
   \<and> attempts (snd (convertHandler remoteFails (Some (exampleUpload docxType)) (Some ''PDF'')
                      exampleWorld))
       = attempts exampleWorld @ [(Remote, False), (WordToPdfBasic, False)]
   \<and> fst (convertWithCloudConvert remoteFails (filePath (exampleUpload docxType))
            (outputPathOf remoteFails (exampleUpload docxType) PDF) ''docx'' ''pdf'' exampleWorld)
       = Inl (Error ''CloudConvert conversion failed: Bad Gateway'')
   \<and> fst (convertHandler remoteFails (Some (exampleUpload docxType)) (Some ''PDF'') exampleWorld)
       = failure 500 wordToPdfFailed"
proof -
  let ?f = "exampleUpload docxType"
  let ?tried = "[(Remote, False), (WordToPdfBasic, False)]"
  obtain r w' where run: "convertHandler remoteFails (Some ?f) (Some ''PDF'') exampleWorld = (r, w')"
    by (cases "convertHandler remoteFails (Some ?f) (Some ''PDF'') exampleWorld")
  have p: "safeParse (Some ''PDF'') = Some PDF" by code_simp
  have k: "isWordMime (mimetype ?f)" by code_simp
  have a: "attempts (snd (convertHandler remoteFails (Some ?f) (Some ''PDF'') exampleWorld))
       = attempts exampleWorld @ ?tried" by code_simp
  have rm: "fst (convertWithCloudConvert remoteFails (filePath ?f)
            (outputPathOf remoteFails ?f PDF) ''docx'' ''pdf'' exampleWorld)
       = Inl (Error ''CloudConvert conversion failed: Bad Gateway'')" by code_simp
  from a run have a': "attempts w' = attempts exampleWorld @ ?tried" by simp
  have "\<exists>e w1 w2.
           (if PDF = WORD
            then fst (last ?tried) = PdfToWordBasic
                 \<and> convertPdfToWordBasic remoteFails (filePath ?f) (outputPathOf remoteFails ?f PDF) w1
                     = (Inl e, w2)
                 \<and> messageText e = pdfToWordFailed
            else fst (last ?tried) = WordToPdfBasic
                 \<and> convertWordToPdfBasic remoteFails (filePath ?f) (outputPathOf remoteFails ?f PDF) w1
                     = (Inl e, w2)
                 \<and> messageText e = wordToPdfFailed)
           \<and> r = failure 500 (messageText e)"
    by (rule last_failure_is_surfaced [OF p _ run a']) (simp_all add: k)
  then have "r = failure 500 wordToPdfFailed" by auto
  with run p k a rm show ?thesis by simp
qed

section \<open>The upload is deleted once and the output is kept\<close>

text \<open>\<open>delivers out m\<close>: whenever \<open>m\<close> returns, the file \<open>out\<close> exists.\<close>

definition delivers :: "path \<Rightarrow> unit io \<Rightarrow> bool" where
  "delivers out m \<longleftrightarrow> (\<forall>w w'. m w = (Inr (), w') \<longrightarrow> out \<in> files w')"

lemma deliversD: "delivers out m \<Longrightarrow> m w = (Inr (), w') \<Longrightarrow> out \<in> files w'"
  by (simp add: delivers_def)

lemma delivers_throw: "delivers out (throw e)"
  by (simp add: delivers_def throw_def)

lemma delivers_andThen: "delivers out k \<Longrightarrow> delivers out (andThen m k)"
  by (auto simp: delivers_def andThen_def split: prod.splits sum.splits)

lemma delivers_andThen_kept:
  assumes "delivers out m" and "confined quiet T k" and "out \<notin> T"
  shows "delivers out (andThen m k)"
  unfolding delivers_def
proof (intro allI impI)
  fix w w'
  assume run: "andThen m k w = (Inr (), w')"
  obtain r1 w1 where m: "m w = (r1, w1)" by (cases "m w")
  with run have r1: "r1 = Inr ()" and k: "k w1 = (Inr (), w')"
    by (auto simp: andThen_def split: sum.splits)
  from assms(1) m r1 have "out \<in> files w1" by (auto dest: deliversD)
  moreover from assms(2) k have "files w1 - T \<subseteq> files w'"
    by (auto simp: confined_def touches_def)
  ultimately show "out \<in> files w'" using assms(3) by blast
qed

lemma delivers_tryCatch:
  "delivers out m \<Longrightarrow> (\<And>e. delivers out (h e)) \<Longrightarrow> delivers out (tryCatch m h)"
  by (auto simp: delivers_def tryCatch_def split: prod.splits sum.splits)

lemma delivers_tryFirst:
  "delivers out m \<Longrightarrow> delivers out rest \<Longrightarrow> delivers out (tryFirst m rest)"
  unfolding tryFirst_def by (rule delivers_tryCatch)

lemma delivers_attempt: "delivers out m \<Longrightarrow> delivers out (attempt s m)"
  by (auto simp: delivers_def attempt_def split: prod.splits)

lemma delivers_created: "delivers out (\<lambda>w. (Inr (), created out w))"
  by (simp add: delivers_def created_def)

lemma delivers_writeFileSync: "delivers out (writeFileSync env st out)"
  by (auto simp: delivers_def writeFileSync_def created_def split: option.splits)

lemma delivers_produce: "delivers out (produce outcome out)"
  unfolding produce_def by (intro delivers_andThen delivers_created)

lemma delivers_renameSync: "delivers out (renameSync src out)"
  by (auto simp: delivers_def renameSync_def split: if_splits)

lemma delivers_after_created: "delivers out m \<Longrightarrow> delivers out (\<lambda>w. m (created p w))"
  by (simp add: delivers_def)

lemma delivers_copyFileSync: "delivers out (copyFileSync env src out)"
  unfolding copyFileSync_def by (intro delivers_andThen delivers_writeFileSync)

lemma delivers_convertWithCloudConvert:
  "delivers out (convertWithCloudConvert env inputPath out a b)"
  unfolding convertWithCloudConvert_def
  by (auto intro!: delivers_throw delivers_tryCatch delivers_andThen delivers_writeFileSync)

lemma delivers_convertImage: "delivers out (convertImage env inputPath out tf)"
  unfolding convertImage_def
  by (cases tf) (simp_all add: delivers_produce delivers_throw)

lemma delivers_rasterizeFirstPage:
  assumes "out \<noteq> pagePath ''temp-pdf-page'' 1 (lowerFormat tf)"
  shows "delivers out (rasterizeFirstPage env inputPath out tf)"
proof (cases "pdf2pic env inputPath 150 ''temp-pdf-page'' (lowerFormat tf) 1")
  case Rendered
  let ?tmp = "pagePath ''temp-pdf-page'' 1 (lowerFormat tf)"
  have "delivers out (andThen (convertImage env ?tmp out tf) (unlinkSync ?tmp))"
    by (rule delivers_andThen_kept [where T = "{?tmp}"])
      (use assms in \<open>simp_all add: delivers_convertImage confined_unlinkSync\<close>)
  then have "delivers out
     (if tf = PNG \<or> tf = JPG then renameSync ?tmp out
      else andThen (convertImage env ?tmp out tf) (unlinkSync ?tmp))"
    by (simp add: delivers_renameSync)
  then have "delivers out (\<lambda>w.
     (if tf = PNG \<or> tf = JPG then renameSync ?tmp out
      else andThen (convertImage env ?tmp out tf) (unlinkSync ?tmp)) (created ?tmp w))"
    by (rule delivers_after_created)
  with Rendered show ?thesis by (simp add: rasterizeFirstPage_def)
next
  case NoResult
  then show ?thesis by (simp add: rasterizeFirstPage_def delivers_throw)
next
  case (RenderThrows e)
  then show ?thesis by (simp add: rasterizeFirstPage_def delivers_throw)
qed

lemma delivers_convertPdfToImage:
  assumes "out \<noteq> pagePath ''temp-pdf-page'' 1 (lowerFormat tf)"
  shows "delivers out (convertPdfToImage env inputPath out tf)"
  unfolding convertPdfToImage_def Let_def
  using assms
  by (auto intro!: delivers_tryFirst delivers_attempt delivers_convertWithCloudConvert
      delivers_rasterizeFirstPage)

lemma delivers_convertPdfToText: "delivers out (convertPdfToText env inputPath out)"
  unfolding convertPdfToText_def
  by (auto intro!: delivers_throw delivers_created split: exec_result.split)

lemma delivers_convertPdfToWordBasic:
  assumes "out \<noteq> (fst inputPath, snd inputPath @ ''.txt'')"
  shows "delivers out (convertPdfToWordBasic env inputPath out)"
proof -
  let ?tmp = "(fst inputPath, snd inputPath @ ''.txt'')"
  have inner:
    "delivers out (andThen (writeFileSync env PdfToWordBasicSite out) (unlinkIfExists ?tmp))"
    by (rule delivers_andThen_kept [where T = "{?tmp}"])
      (use assms in \<open>simp_all add: delivers_writeFileSync confined_unlinkIfExists\<close>)
  have "delivers out
     (andThen (case pdftotext env True inputPath of
                 ExecOk \<Rightarrow> (\<lambda>w. (Inr (), created ?tmp w))
               | ExecFailed syntaxError \<Rightarrow> throw execError)
     (andThen (readFile ?tmp)
     (andThen (external (packDocx env PdfToWordBasicSite inputPath))
     (andThen (writeFileSync env PdfToWordBasicSite out) (unlinkIfExists ?tmp)))))"
    by (rule delivers_andThen, rule delivers_andThen, rule delivers_andThen, rule inner)
  moreover have "delivers out (andThen (unlinkIfExists ?tmp) (throw e))" for e
    by (intro delivers_andThen delivers_throw)
  ultimately show ?thesis
    unfolding convertPdfToWordBasic_def Let_def
    by (intro delivers_tryCatch)
qed

lemma delivers_convertPdfToWordSnapshot:
  assumes "out \<notin> range (\<lambda>page. pagePath (snapshotName env) page ''png'')"
  shows "delivers out (convertPdfToWordSnapshot env inputPath out)"
  unfolding delivers_def
proof (intro allI impI)
  fix w w'
  assume run: "convertPdfToWordSnapshot env inputPath out w = (Inr (), w')"
  show "out \<in> files w'"
  proof (cases "getPdfPageCount env inputPath")
    case (Inl e)
    with snapshot_no_pages [OF run] show ?thesis by simp
  next
    case (Inr n)
    show ?thesis
    proof (cases "n = 0")
      case True
      with Inr snapshot_no_pages [OF run] show ?thesis by simp
    next
      case False
      obtain rendered imagePaths w1 where
        pages: "renderPages env inputPath (snapshotName env) [1..<Suc n] [] w
                  = (rendered, imagePaths, w1)"
        by (cases "renderPages env inputPath (snapshotName env) [1..<Suc n] [] w")
      from False have "0 < n" by simp
      from snapshot_effect [OF run Inr this pages] assms show ?thesis by auto
    qed
  qed
qed

lemma delivers_convertPdfToWord:
  assumes "out \<notin> range (\<lambda>page. pagePath (snapshotName env) page ''png'')"
    and "out \<noteq> (fst inputPath, snd inputPath @ ''.txt'')"
  shows "delivers out (convertPdfToWord env inputPath out)"
  unfolding convertPdfToWord_def Let_def
  using assms
  by (auto intro!: delivers_tryFirst delivers_attempt delivers_convertWithCloudConvert
      delivers_convertPdfToWordSnapshot delivers_convertPdfToWordBasic)

lemma delivers_convertWordToPdfBasic: "delivers out (convertWordToPdfBasic env inputPath out)"
  unfolding convertWordToPdfBasic_def
  by (auto intro!: delivers_tryCatch delivers_andThen delivers_throw delivers_writeFileSync
      split: sum.split)

lemma delivers_convertWordToPdf: "delivers out (convertWordToPdf env inputPath out mimeType)"
  unfolding convertWordToPdf_def Let_def
  by (auto intro!: delivers_tryFirst delivers_attempt delivers_convertWithCloudConvert
      delivers_convertWordToPdfBasic delivers_throw)

lemma delivers_convertImageToPdf: "delivers out (convertImageToPdf env inputPath out)"
  unfolding convertImageToPdf_def Let_def
  by (auto intro!: delivers_tryFirst delivers_attempt delivers_convertWithCloudConvert
      delivers_andThen delivers_writeFileSync)

lemma delivers_convertTextToPdf: "delivers out (convertTextToPdf env inputPath out)"
  unfolding convertTextToPdf_def
  by (intro delivers_andThen delivers_writeFileSync)

text \<open>The chains are confined as well.\<close>

lemma confined_convertPdfToImage:
  assumes "pagePath ''temp-pdf-page'' 1 (lowerFormat tf) \<in> T"
  shows "confined False T (convertPdfToImage env inputPath outputPath tf)"
  unfolding convertPdfToImage_def Let_def
  using assms
  by (auto intro!: confined_tryFirst confined_attempt confined_convertWithCloudConvert
      confined_rasterizeFirstPage)

lemma confined_convertPdfToWord:
  assumes "range (\<lambda>page. pagePath (snapshotName env) page ''png'') \<subseteq> T"
    and "(fst inputPath, snd inputPath @ ''.txt'') \<in> T"
  shows "confined False T (convertPdfToWord env inputPath outputPath)"
  unfolding convertPdfToWord_def Let_def
  using assms
  by (auto intro!: confined_tryFirst confined_attempt confined_convertWithCloudConvert
      confined_convertPdfToWordSnapshot confined_convertPdfToWordBasic)

lemma confined_convertWordToPdf:
  "confined False T (convertWordToPdf env inputPath outputPath mimeType)"
  unfolding convertWordToPdf_def Let_def
  by (auto intro!: confined_tryFirst confined_attempt confined_convertWithCloudConvert
      confined_convertWordToPdfBasic confined_throw)

lemma confined_convertImageToPdf: "confined False T (convertImageToPdf env inputPath outputPath)"
  unfolding convertImageToPdf_def Let_def
  by (auto intro!: confined_tryFirst confined_attempt confined_convertWithCloudConvert
      confined_andThen confined_external confined_writeFileSync)

text \<open>
  The intermediate files of a request: the page pdf2pic renders for an image target, the
  text file of the PDF-to-Word fallback, and the page images of the snapshot strategy.
\<close>

definition temps :: "env \<Rightarrow> upload \<Rightarrow> SupportedFormat \<Rightarrow> path set" where
  "temps env f tf =
     insert (pagePath ''temp-pdf-page'' 1 (lowerFormat tf))
       (insert (UploadsDir, storedName f @ ''.txt'')
          (range (\<lambda>page. pagePath (snapshotName env) page ''png'')))"

lemma dec_starts_with_digit: "\<exists>d rest. d < 10 \<and> dec n = digit_char d # rest"
proof (induction n rule: dec.induct)
  case (1 n)
  show ?case
  proof (cases "n < 10")
    case True
    then show ?thesis by (auto simp: dec.simps [of n])
  next
    case False
    with "1.IH" obtain d rest where "d < 10" "dec (n div 10) = digit_char d # rest" by auto
    with False show ?thesis by (auto simp: dec.simps [of n])
  qed
qed

lemma of_char_digit: "d < 10 \<Longrightarrow> (of_char (digit_char d) :: nat) = 48 + d"
  by (simp add: digit_char_def)

lemma digit_char_not_letter:
  assumes "d < 10"
  shows "digit_char d \<noteq> CHR ''t'' \<and> digit_char d \<noteq> CHR ''p''"
proof -
  have "(of_char (digit_char d) :: nat) \<noteq> of_char (CHR ''t'')"
    and "(of_char (digit_char d) :: nat) \<noteq> of_char (CHR ''p'')"
    using assms by (simp_all add: of_char_digit)
  then show ?thesis by auto
qed

lemma temps_shape:
  assumes "t \<in> temps env f tf"
  shows "fst t = UploadsDir \<or> hd (snd t) = CHR ''t'' \<or> hd (snd t) = CHR ''p''"
proof -
  from assms consider "t = pagePath ''temp-pdf-page'' 1 (lowerFormat tf)"
    | "t = (UploadsDir, storedName f @ ''.txt'')"
    | page where "t = pagePath (snapshotName env) page ''png''"
    by (auto simp: temps_def)
  then show ?thesis
  proof cases
    case 1
    then show ?thesis by (simp add: pagePath_def)
  next
    case 2
    then show ?thesis by simp
  next
    case 3
    then show ?thesis by (simp add: pagePath_def snapshotName_def)
  qed
qed

lemma outputPath_shape:
  "fst (outputPathOf env f tf) = ConvertedDir
   \<and> (\<exists>d. d < 10 \<and> hd (snd (outputPathOf env f tf)) = digit_char d)"
proof -
  obtain d rest where "d < 10" and "dec (requestTime env) = digit_char d # rest"
    using dec_starts_with_digit by blast
  then show ?thesis by (auto simp: outputPathOf_def)
qed

lemma outputPath_not_temp: "outputPathOf env f tf \<notin> temps env f' tf'"
proof
  assume "outputPathOf env f tf \<in> temps env f' tf'"
  note t = temps_shape [OF this]
  from outputPath_shape [of env f tf] obtain d where d: "d < 10"
    and h: "hd (snd (outputPathOf env f tf)) = digit_char d"
    and c: "fst (outputPathOf env f tf) = ConvertedDir"
    by blast
  from digit_char_not_letter [OF d] h
  have "hd (snd (outputPathOf env f tf)) \<noteq> CHR ''t''"
    and "hd (snd (outputPathOf env f tf)) \<noteq> CHR ''p''"
    by simp_all
  with t c show False by simp
qed

lemma filePath_not_temp: "filePath f \<notin> temps env f tf"
  by (auto simp: filePath_def temps_def pagePath_def)

lemma outputPath_not_upload: "outputPathOf env f tf \<noteq> filePath f'"
  by (simp add: outputPathOf_def filePath_def)

lemma dispatch_confined:
  assumes "dispatch env f tf = Some convert"
  shows "confined False (temps env f tf) convert"
proof -
  have tmp: "pagePath ''temp-pdf-page'' 1 (lowerFormat tf) \<in> temps env f tf"
    and tfile: "(fst (filePath f), snd (filePath f) @ ''.txt'') \<in> temps env f tf"
    and pages: "range (\<lambda>page. pagePath (snapshotName env) page ''png'') \<subseteq> temps env f tf"
    by (auto simp: temps_def filePath_def)
  from assms consider
      "convert = convertImage env (filePath f) (outputPathOf env f tf) tf"
    | "convert = convertImageToPdf env (filePath f) (outputPathOf env f tf)"
    | "convert = convertPdfToImage env (filePath f) (outputPathOf env f tf) tf"
    | "convert = convertPdfToText env (filePath f) (outputPathOf env f tf)"
    | "convert = convertPdfToWord env (filePath f) (outputPathOf env f tf)"
    | "convert = convertWordToPdf env (filePath f) (outputPathOf env f tf) (mimetype f)"
    | "convert = copyFileSync env (filePath f) (outputPathOf env f tf)"
    | "convert = convertTextToPdf env (filePath f) (outputPathOf env f tf)"
    by (auto simp: dispatch_def Let_def split: if_splits)
  then show ?thesis
  proof cases
    case 1
    then show ?thesis by (simp add: confined_convertImage)
  next
    case 2
    then show ?thesis by (simp add: confined_convertImageToPdf)
  next
    case 3
    with tmp show ?thesis by (simp add: confined_convertPdfToImage)
  next
    case 4
    then show ?thesis by (simp add: confined_convertPdfToText)
  next
    case 5
    with pages tfile show ?thesis by (simp add: confined_convertPdfToWord)
  next
    case 6
    then show ?thesis by (simp add: confined_convertWordToPdf)
  next
    case 7
    then show ?thesis by (simp add: confined_copyFileSync)
  next
    case 8
    then show ?thesis by (simp add: confined_convertTextToPdf)
  qed
qed

lemma dispatch_delivers:
  assumes "dispatch env f tf = Some convert"
  shows "delivers (outputPathOf env f tf) convert"
proof -
  let ?out = "outputPathOf env f tf"
  have tmp: "?out \<noteq> pagePath ''temp-pdf-page'' 1 (lowerFormat tf)"
    and tfile: "?out \<noteq> (fst (filePath f), snd (filePath f) @ ''.txt'')"
    and pages: "?out \<notin> range (\<lambda>page. pagePath (snapshotName env) page ''png'')"
    using outputPath_not_temp [of env f tf f tf]
    by (auto simp: temps_def filePath_def)
  from assms consider
      "convert = convertImage env (filePath f) ?out tf"
    | "convert = convertImageToPdf env (filePath f) ?out"
    | "convert = convertPdfToImage env (filePath f) ?out tf"
    | "convert = convertPdfToText env (filePath f) ?out"
    | "convert = convertPdfToWord env (filePath f) ?out"
    | "convert = convertWordToPdf env (filePath f) ?out (mimetype f)"
    | "convert = copyFileSync env (filePath f) ?out"
    | "convert = convertTextToPdf env (filePath f) ?out"
    by (auto simp: dispatch_def Let_def split: if_splits)
  then show ?thesis
  proof cases
    case 1
    then show ?thesis by (simp add: delivers_convertImage)
  next
    case 2
    then show ?thesis by (simp add: delivers_convertImageToPdf)
  next
    case 3
    with tmp show ?thesis by (simp add: delivers_convertPdfToImage)
  next
    case 4
    then show ?thesis by (simp add: delivers_convertPdfToText)
  next
    case 5
    with pages tfile show ?thesis by (simp add: delivers_convertPdfToWord)
  next
    case 6
    then show ?thesis by (simp add: delivers_convertWordToPdf)
  next
    case 7
    then show ?thesis by (simp add: delivers_copyFileSync)
  next
    case 8
    then show ?thesis by (simp add: delivers_convertTextToPdf)
  qed
qed

lemma removed_effect:
  assumes "p \<in> files v" and "unlinked v = unlinked w @ vs" and "p \<notin> set vs"
    and "out \<notin> set vs" and "out \<noteq> p"
  shows "p \<notin> files (removed p v)
         \<and> (\<exists>us. unlinked (removed p v) = unlinked w @ us \<and> count_list us p = 1
                 \<and> out \<notin> set us)
         \<and> (out \<in> files v \<longrightarrow> out \<in> files (removed p v))"
proof -
  from assms(2) have "unlinked (removed p v) = unlinked w @ (vs @ [p])"
    by (simp add: removed_def)
  moreover from assms(3) have "count_list (vs @ [p]) p = 1"
    by (simp add: count_list_0_iff)
  moreover from assms(4,5) have "out \<notin> set (vs @ [p])" by simp
  ultimately have "\<exists>us. unlinked (removed p v) = unlinked w @ us \<and> count_list us p = 1
      \<and> out \<notin> set us" by blast
  with assms(5) show ?thesis by (simp add: removed_def)
qed

text \<open>
  C5. Take a request whose uploaded file exists when the handler starts. When the handler
  returns, on every outcome (success, invalid target, unsupported conversion, exception),
  the upload no longer exists, and among the \<open>unlinkSync\<close> calls of the request exactly
  one is on the upload's path: on the exception path the existence check finds the file
  still there, since no strategy removes it. The output path is never unlinked, and after
  a successful response the output file exists.
\<close>

theorem upload_deleted_exactly_once:
  assumes there: "filePath f \<in> files w"
    and run: "convertHandler env (Some f) raw w = (r, w')"
  shows "filePath f \<notin> files w'
         \<and> (\<exists>us. unlinked w' = unlinked w @ us \<and> count_list us (filePath f) = 1
                 \<and> (safeParse raw = Some tf \<longrightarrow> outputPathOf env f tf \<notin> set us))
         \<and> (safeParse raw = Some tf \<and> success r \<longrightarrow> outputPathOf env f tf \<in> files w')"
proof -
  let ?p = "filePath f"
  have direct: ?thesis if w': "w' = removed ?p w" and r: "\<not> success r"
  proof -
    have "unlinked w = unlinked w @ []" by simp
    from removed_effect [OF there this, of "outputPathOf env f tf"] outputPath_not_upload
    have "?p \<notin> files (removed ?p w)
         \<and> (\<exists>us. unlinked (removed ?p w) = unlinked w @ us \<and> count_list us ?p = 1
                 \<and> outputPathOf env f tf \<notin> set us)"
      by simp
    with w' r show ?thesis by blast
  qed
  show ?thesis
  proof (cases "safeParse raw")
    case None
    from handler_invalid_target [OF None, of env f w] there run
    have "w' = removed ?p w" "r = failure 400 invalidTargetMessage" by simp_all
    then show ?thesis by (intro direct) (simp_all add: failure_def)
  next
    case (Some t)
    show ?thesis
    proof (cases "dispatch env f t")
      case None
      from handler_unsupported [OF Some None, of w] there run
      have "w' = removed ?p w" "r = unsupported f t" by simp_all
      then show ?thesis by (intro direct) (simp_all add: unsupported_def)
    next
      case (Some convert)
      note parse = \<open>safeParse raw = Some t\<close>
      let ?out = "outputPathOf env f t"
      obtain res v where c: "convert w = (res, v)" by (cases "convert w")
      from dispatch_confined [OF Some] c have "touches False (temps env f t) w v"
        by (rule confinedD)
      then obtain vs where vs: "unlinked v = unlinked w @ vs" "set vs \<subseteq> temps env f t"
        and keep: "files w - temps env f t \<subseteq> files v"
        by (auto simp: touches_def)
      from keep there filePath_not_temp [of f env t] have pv: "?p \<in> files v" by blast
      from vs(2) filePath_not_temp [of f env t] have p_vs: "?p \<notin> set vs" by blast
      from vs(2) outputPath_not_temp [of env f t f t] have o_vs: "?out \<notin> set vs" by blast
      have o_p: "?out \<noteq> ?p" by (rule outputPath_not_upload)
      note eff = removed_effect [OF pv vs(1) p_vs o_vs o_p]
      have w': "w' = removed ?p v"
        and ok: "success r \<longrightarrow> res = Inr ()"
      proof -
        show "w' = removed ?p v"
        proof (cases res)
          case (Inl e)
          with handler_conversion_failed [OF parse Some, of w e v] c run pv show ?thesis by simp
        next
          case (Inr u)
          with handler_conversion_succeeded [OF parse Some, of w v] c run pv show ?thesis by simp
        qed
        show "success r \<longrightarrow> res = Inr ()"
        proof (cases res)
          case (Inl e)
          with handler_conversion_failed [OF parse Some, of w e v] c run show ?thesis
            by (simp add: failure_def)
        next
          case (Inr u)
          then show ?thesis by simp
        qed
      qed
      have "?out \<in> files w'" if "success r"
      proof -
        from that ok c have "convert w = (Inr (), v)" by simp
        with dispatch_delivers [OF Some] have "?out \<in> files v" by (rule deliversD)
        with eff w' show ?thesis by simp
      qed
      with eff w' parse show ?thesis by auto
    qed
  qed
qed

theorem upload_deleted_exactly_once_witness:
  "filePath (exampleUpload ''application/pdf'') \<in> files exampleWorld
   \<and> safeParse (Some ''WORD'') = Some WORD
   \<and> success (fst (convertHandler remoteAndSnapshotFail (Some (exampleUpload ''application/pdf''))
                     (Some ''WORD'') exampleWorld))
   \<and> unlinked (snd (convertHandler remoteAndSnapshotFail (Some (exampleUpload ''application/pdf''))
                      (Some ''WORD'') exampleWorld))
       = unlinked exampleWorld
           @ [(ConvertedDir, ''pdf-snapshot-43.1.png''), (UploadsDir, ''1-2-a.bin.txt''),
              (UploadsDir, ''1-2-a.bin'')]
   \<and> filePath (exampleUpload ''application/pdf'')
        \<notin> files (snd (convertHandler remoteAndSnapshotFail (Some (exampleUpload ''application/pdf''))
                         (Some ''WORD'') exampleWorld))
   \<and> outputPathOf remoteAndSnapshotFail (exampleUpload ''application/pdf'') WORD
        \<in> files (snd (convertHandler remoteAndSnapshotFail (Some (exampleUpload ''application/pdf''))
                         (Some ''WORD'') exampleWorld))"
proof -
  let ?f = "exampleUpload ''application/pdf''"
  let ?env = remoteAndSnapshotFail
  obtain r w' where run: "convertHandler ?env (Some ?f) (Some ''WORD'') exampleWorld = (r, w')"
    by (cases "convertHandler ?env (Some ?f) (Some ''WORD'') exampleWorld")
  have there: "filePath ?f \<in> files exampleWorld" by code_simp
  have p: "safeParse (Some ''WORD'') = Some WORD" by code_simp
  have s: "success (fst (convertHandler ?env (Some ?f) (Some ''WORD'') exampleWorld))"
    by code_simp
  have u: "unlinked (snd (convertHandler ?env (Some ?f) (Some ''WORD'') exampleWorld))
       = unlinked exampleWorld
           @ [(ConvertedDir, ''pdf-snapshot-43.1.png''), (UploadsDir, ''1-2-a.bin.txt''),
              (UploadsDir, ''1-2-a.bin'')]"
    by code_simp
  from upload_deleted_exactly_once [OF there run, of WORD] p s run
  have "filePath ?f \<notin> files w' \<and> outputPathOf ?env ?f WORD \<in> files w'"
    by simp
  with run there p s u show ?thesis by simp
qed

end
